theory Spec2Isabelle
  imports Complex_Main
begin

section \<open>Values shared by the metric class and the training loop\<close>

text \<open>
  Exceptions of the Python source are values: a function that can raise returns
  \<open>error + 'a\<close>, with \<open>Inl\<close> for the exception.
\<close>

datatype error = ValueError | IndexError | AttributeError | ZeroDivisionError | KeyError

text \<open>
  A float64 as the source uses it: a finite value, the two infinities, or not-a-number.
  Finite values are real numbers; rounding and overflow of the binary format are left out.
\<close>

datatype fval = Fin real | PInf | NInf | NaN

fun is_nan :: "fval \<Rightarrow> bool" where
  "is_nan NaN = True"
| "is_nan _ = False"

text \<open>IEEE addition on the extended values.\<close>

fun fadd :: "fval \<Rightarrow> fval \<Rightarrow> fval" where
  "fadd NaN _ = NaN"
| "fadd _ NaN = NaN"
| "fadd PInf NInf = NaN"
| "fadd NInf PInf = NaN"
| "fadd PInf _ = PInf"
| "fadd _ PInf = PInf"
| "fadd NInf _ = NInf"
| "fadd _ NInf = NInf"
| "fadd (Fin a) (Fin b) = Fin (a + b)"

text \<open>Division of an extended value by a positive count (the last step of a mean).\<close>

fun fdiv_count :: "fval \<Rightarrow> nat \<Rightarrow> fval" where
  "fdiv_count (Fin a) k = Fin (a / real k)"
| "fdiv_count v k = v"

text \<open>
  numpy's division of two finite floats: a zero divisor gives not-a-number for a zero
  dividend and a signed infinity otherwise (a warning, never an exception).
\<close>

definition np_div :: "real \<Rightarrow> real \<Rightarrow> fval" where
  "np_div x y =
     (if y = 0 then (if x = 0 then NaN else if 0 < x then PInf else NInf)
      else Fin (x / y))"

text \<open>\<open>x <= y\<close> on floats: false whenever an operand is not-a-number.\<close>

fun fle :: "fval \<Rightarrow> fval \<Rightarrow> bool" where
  "fle NaN _ = False"
| "fle _ NaN = False"
| "fle NInf _ = True"
| "fle _ PInf = True"
| "fle PInf _ = False"
| "fle _ NInf = False"
| "fle (Fin a) (Fin b) = (a \<le> b)"

section \<open>The metric class \<open>IoU\<close>\<close>

type_synonym matrix = "int list list"

text \<open>
  A tensor is a nested list, outermost dimension first: predictions are
  batch \<times> class \<times> height \<times> width, labels are batch \<times> height \<times> width.
\<close>

type_synonym 'a tensor3 = "'a list list list"
type_synonym 'a tensor4 = "'a list list list list"

record IoU =
  iou_metric :: real
  num_classes :: nat
  confusion_matrix :: matrix

definition np_zeros :: "nat \<Rightarrow> nat \<Rightarrow> matrix" where
  "np_zeros r c = replicate r (replicate c 0)"

definition IoU_init :: "nat \<Rightarrow> IoU" where
  "IoU_init n = \<lparr>iou_metric = 0, num_classes = n, confusion_matrix = np_zeros n n\<rparr>"

definition reset :: "IoU \<Rightarrow> IoU" where
  "reset self =
     self\<lparr>iou_metric := 0, confusion_matrix := np_zeros (num_classes self) (num_classes self)\<rparr>"

subsection \<open>\<open>_fast_hist\<close>\<close>

text \<open>Boolean-mask indexing \<open>xs[mask]\<close>; numpy raises when the lengths differ.\<close>

definition mask_index :: "'a list \<Rightarrow> bool list \<Rightarrow> error + 'a list" where
  "mask_index xs msk =
     (if length msk \<noteq> length xs then Inl IndexError
      else Inr (map fst (filter snd (zip xs msk))))"

text \<open>
  \<open>np.bincount(xs, minlength)\<close> on non-negative integers: position \<open>k\<close> counts the
  occurrences of \<open>k\<close>; the result is as long as the largest value needs, and at least
  \<open>minlength\<close>.
\<close>

definition bincount :: "nat list \<Rightarrow> nat \<Rightarrow> int list" where
  "bincount xs minlength =
     map (\<lambda>k. int (count_list xs k)) [0..<fold (\<lambda>x m. max (Suc x) m) xs minlength]"

text \<open>\<open>.reshape(r, c)\<close> of a flat array; numpy raises when the sizes do not agree.\<close>

definition reshape :: "nat \<Rightarrow> nat \<Rightarrow> int list \<Rightarrow> error + matrix" where
  "reshape r c xs =
     (if length xs \<noteq> r * c then Inl ValueError
      else Inr (map (\<lambda>i. take c (drop (i * c) xs)) [0..<r]))"

text \<open>
  The true labels are integers of any sign; the predicted labels come from
  \<open>argmax\<close> and are indices. After masking the true labels are non-negative, so
  every value given to \<open>bincount\<close> is a natural number.
\<close>

definition fast_hist :: "nat \<Rightarrow> int list \<Rightarrow> nat list \<Rightarrow> error + matrix" where
  "fast_hist n label_true label_pred =
     (let msk = map (\<lambda>t. 0 \<le> t \<and> t < int n) label_true in
      case mask_index label_true msk of Inl e \<Rightarrow> Inl e
      | Inr lt \<Rightarrow>
     (case mask_index label_pred msk of Inl e \<Rightarrow> Inl e
      | Inr lp \<Rightarrow>
        reshape n n (bincount (map2 (\<lambda>t p. n * nat t + p) lt lp) (n ^ 2))))"

subsection \<open>\<open>update\<close>\<close>

text \<open>Index of the first maximum of a non-empty list.\<close>

fun argmax :: "real list \<Rightarrow> nat" where
  "argmax [] = 0"
| "argmax [x] = 0"
| "argmax (x # xs) = (let j = argmax xs in if x < xs ! j then Suc j else 0)"

text \<open>
  \<open>torch.argmax(y, dim=1)\<close> on one sample (class \<times> height \<times> width); torch raises on
  a class dimension of size zero.
\<close>

definition argmax_sample :: "real tensor3 \<Rightarrow> error + nat list list" where
  "argmax_sample s =
     (case s of [] \<Rightarrow> Inl IndexError
      | plane0 # _ \<Rightarrow>
          Inr (map (\<lambda>h. map (\<lambda>w. argmax (map (\<lambda>plane. plane ! h ! w) s))
                            [0..<length (plane0 ! h)])
                   [0..<length plane0]))"

fun torch_argmax_dim1 :: "real tensor4 \<Rightarrow> error + nat tensor3" where
  "torch_argmax_dim1 [] = Inr []"
| "torch_argmax_dim1 (s # ss) =
     (case argmax_sample s of Inl e \<Rightarrow> Inl e
      | Inr p \<Rightarrow> (case torch_argmax_dim1 ss of Inl e \<Rightarrow> Inl e | Inr ps \<Rightarrow> Inr (p # ps)))"

definition flatten :: "'a tensor3 \<Rightarrow> 'a list" where
  "flatten t = concat (map concat t)"

text \<open>
  The confusion matrix is a float64 array (\<open>np.zeros\<close>) whose entries are whole
  numbers, and the batch histogram is an array of int64 counts, which \<open>+=\<close> converts
  to float64 before it adds. A float64 holds every integer up to
  \<open>2 ^ 53 = 9007199254740992\<close> and, above that, only the multiples of a power of two:
  \<open>f64_round\<close> gives the nearest of them, a tie going to the even significand. The
  exponent range is left out, the largest float64 being far above any count.
\<close>

function f64_exp :: "int \<Rightarrow> nat" where
  "f64_exp x = (if x < 9007199254740992 then 0 else Suc (f64_exp (x div 2)))"
  by pat_completeness auto
termination
  by (relation "measure nat") auto

declare f64_exp.simps [simp del]

definition f64_round :: "int \<Rightarrow> int" where
  "f64_round x =
     (let a = \<bar>x\<bar>; e = f64_exp a; q = a div 2 ^ e; r = a mod 2 ^ e;
          q' = (if 2 ^ e < 2 * r \<or> (2 * r = 2 ^ e \<and> odd q) then q + 1 else q)
      in sgn x * (q' * 2 ^ e))"

text \<open>\<open>x += y\<close> on a float64 \<open>x\<close> and an int64 \<open>y\<close>.\<close>

definition f64_add :: "int \<Rightarrow> int \<Rightarrow> int" where
  "f64_add x y = f64_round (x + f64_round y)"

definition mat_add :: "matrix \<Rightarrow> matrix \<Rightarrow> matrix" where
  "mat_add a b = map2 (map2 f64_add) a b"

definition update :: "IoU \<Rightarrow> real tensor4 \<Rightarrow> int tensor3 \<Rightarrow> error + IoU" where
  "update self y_preds labels =
     (case torch_argmax_dim1 y_preds of Inl e \<Rightarrow> Inl e
      | Inr predicted_labels \<Rightarrow>
     (case fast_hist (num_classes self) (flatten labels) (flatten predicted_labels) of
        Inl e \<Rightarrow> Inl e
      | Inr batch_confusion_matrix \<Rightarrow>
          Inr (self\<lparr>confusion_matrix :=
                      mat_add (confusion_matrix self) batch_confusion_matrix\<rparr>)))"

subsection \<open>\<open>compute\<close>\<close>

record snapshot =
  accuracy :: fval
  miou :: fval
  classwise_iou :: "fval list"
  classwise_f1 :: "fval list"
  f1_mean :: fval
  matrix :: matrix

text \<open>
  The truth value of an array, as \<open>if matrix:\<close> asks for it: an array without elements
  is false, an array of one element has the truth value of that element, and a larger
  array raises. Matrices are square here, and a nested list with rows of different
  lengths is no array.
\<close>

definition array_bool :: "matrix \<Rightarrow> error + bool" where
  "array_bool a =
     (case concat a of [] \<Rightarrow> Inr False
      | [x] \<Rightarrow> Inr (x \<noteq> 0)
      | _ \<Rightarrow> Inl ValueError)"

text \<open>The truth value of the argument \<open>matrix\<close>, whose default is \<open>None\<close>.\<close>

definition arg_bool :: "matrix option \<Rightarrow> error + bool" where
  "arg_bool m = (case m of None \<Rightarrow> Inr False | Some a \<Rightarrow> array_bool a)"

definition np_diag :: "matrix \<Rightarrow> int list" where
  "np_diag h = map (\<lambda>i. h ! i ! i) [0..<length h]"

definition row_sums :: "matrix \<Rightarrow> int list" where
  "row_sums h = map sum_list h"

definition col_sums :: "matrix \<Rightarrow> int list" where
  "col_sums h =
     map (\<lambda>j. sum_list (map (\<lambda>row. row ! j) h))
         [0..<(case h of [] \<Rightarrow> 0 | r # _ \<Rightarrow> length r)]"

text \<open>\<open>np.nanmean\<close>: the mean of the entries that are numbers; not-a-number if none is.\<close>

definition nanmean :: "fval list \<Rightarrow> fval" where
  "nanmean xs =
     (let ys = filter (\<lambda>v. \<not> is_nan v) xs in
      if ys = [] then NaN else fdiv_count (foldl fadd (Fin 0) ys) (length ys))"

definition metrics :: "matrix \<Rightarrow> snapshot" where
  "metrics hist =
     (let d = np_diag hist; rs = row_sums hist; cs = col_sums hist;
          iu = map2 (\<lambda>tp den. np_div (of_int tp) (of_int den))
                    d (map2 (-) (map2 (+) rs cs) d);
          mean_iu = nanmean iu;
          acc = np_div (of_int (sum_list d)) (of_int (sum_list (concat hist)));
          f1 = map2 (\<lambda>tp den. np_div (of_int (2 * tp)) (of_int den)) d (map2 (+) rs cs);
          meanf1 = nanmean f1
      in \<lparr>accuracy = acc, miou = mean_iu, classwise_iou = iu, classwise_f1 = f1,
          f1_mean = meanf1, matrix = hist\<rparr>)"

definition compute :: "IoU \<Rightarrow> matrix option \<Rightarrow> error + snapshot" where
  "compute self matrix_arg =
     (case arg_bool matrix_arg of Inl e \<Rightarrow> Inl e
      | Inr b \<Rightarrow> Inr (metrics (if b then the matrix_arg else confusion_matrix self)))"


subsection \<open>Well-formed inputs and the spec's formulas\<close>

text \<open>
  The shapes of a batch agree when every sample of the predictions has at least one
  class plane and every plane has the height and the row widths of the sample's labels.
\<close>

definition sample_shape_ok :: "real tensor3 \<Rightarrow> int list list \<Rightarrow> bool" where
  "sample_shape_ok s l =
     (s \<noteq> [] \<and> list_all (\<lambda>plane. list_all2 (\<lambda>r lr. length r = length lr) plane l) s)"

definition shapes_match :: "real tensor4 \<Rightarrow> int tensor3 \<Rightarrow> bool" where
  "shapes_match y_preds labels = list_all2 sample_shape_ok y_preds labels"

text \<open>A confusion matrix of \<open>n\<close> classes: \<open>n\<close> rows of \<open>n\<close> counts.\<close>

definition wf_matrix :: "nat \<Rightarrow> matrix \<Rightarrow> bool" where
  "wf_matrix n m =
     (length m = n \<and> list_all (\<lambda>row. length row = n \<and> list_all (\<lambda>x. 0 \<le> x) row) m)"

text \<open>
  The exact sum of two matrices, and the matrices all of whose counts can grow by \<open>k\<close>
  without leaving the integers that a float64 holds exactly.
\<close>

definition mat_plus :: "matrix \<Rightarrow> matrix \<Rightarrow> matrix" where
  "mat_plus a b = map2 (map2 (+)) a b"

definition room_for :: "nat \<Rightarrow> matrix \<Rightarrow> bool" where
  "room_for k m = list_all (list_all (\<lambda>x. x + int k \<le> 2 ^ 53)) m"

text \<open>The pixels that pass the mask, and the flat cell index of each.\<close>

definition valid_pairs :: "nat \<Rightarrow> int list \<Rightarrow> nat list \<Rightarrow> (int \<times> nat) list" where
  "valid_pairs n label_true label_pred =
     filter (\<lambda>(t, p). 0 \<le> t \<and> t < int n) (zip label_true label_pred)"

definition cell_indices :: "nat \<Rightarrow> int list \<Rightarrow> nat list \<Rightarrow> nat list" where
  "cell_indices n label_true label_pred =
     map (\<lambda>(t, p). n * nat t + p) (valid_pairs n label_true label_pred)"

definition hist_cells :: "nat \<Rightarrow> nat list \<Rightarrow> matrix" where
  "hist_cells n xs = map (\<lambda>i. map (\<lambda>j. int (count_list xs (i * n + j))) [0..<n]) [0..<n]"

text \<open>
  The formulas of the specification, written from its words: per-class IoU and F1 with
  not-a-number on a zero denominator, and the mean over the entries that are numbers.
\<close>

definition row_sum :: "matrix \<Rightarrow> nat \<Rightarrow> int" where
  "row_sum m c = sum_list (m ! c)"

definition col_sum :: "matrix \<Rightarrow> nat \<Rightarrow> int" where
  "col_sum m c = sum_list (map (\<lambda>row. row ! c) m)"

definition iou_class :: "matrix \<Rightarrow> nat \<Rightarrow> fval" where
  "iou_class m c =
     (let den = row_sum m c + col_sum m c - m ! c ! c in
      if den = 0 then NaN else Fin (of_int (m ! c ! c) / of_int den))"

definition f1_class :: "matrix \<Rightarrow> nat \<Rightarrow> fval" where
  "f1_class m c =
     (let den = row_sum m c + col_sum m c in
      if den = 0 then NaN else Fin (of_int (2 * m ! c ! c) / of_int den))"

definition defined_values :: "fval list \<Rightarrow> real list" where
  "defined_values vs = concat (map (\<lambda>v. case v of Fin r \<Rightarrow> [r] | _ \<Rightarrow> []) vs)"

definition mean_defined :: "fval list \<Rightarrow> fval" where
  "mean_defined vs =
     (let ds = defined_values vs in
      if ds = [] then NaN else Fin (sum_list ds / real (length ds)))"

definition is_fin_or_nan :: "fval \<Rightarrow> bool" where
  "is_fin_or_nan v = (case v of Fin _ \<Rightarrow> True | NaN \<Rightarrow> True | _ \<Rightarrow> False)"

section \<open>Evaluation and training\<close>

text \<open>
  The network, the loss function, the optimizer and the scheduler are parameters of the
  source; so they are here. A model, an optimizer and a scheduler are their states
  (\<open>'m\<close>, \<open>'o\<close>, \<open>'s\<close>); a batch is a pair of inputs \<open>'x\<close> and labels; a data loader is
  the list of its batches, and its \<open>len\<close> is the length of that list. Losses are the
  finite numbers that \<open>loss.item()\<close> returns. Moving the model and the tensors to a
  device, printing and the progress bar have no counterpart here.
\<close>

record ('m, 'o, 's, 'x) collab =
  forward :: "'m \<Rightarrow> 'x \<Rightarrow> real tensor4"
  criterion :: "real tensor4 \<Rightarrow> int tensor3 \<Rightarrow> real"
  backward_step :: "'m \<Rightarrow> 'o \<Rightarrow> 'x \<Rightarrow> int tensor3 \<Rightarrow> 'm \<times> 'o"
  scheduler_step :: "'s \<Rightarrow> 'o \<Rightarrow> 's \<times> 'o"
  set_train :: "'m \<Rightarrow> 'm"
  set_eval :: "'m \<Rightarrow> 'm"
  elapsed :: "int \<Rightarrow> nat"

text \<open>
  \<open>forward\<close> is \<open>model(inputs)\<close>, \<open>criterion\<close> is the number \<open>criterion(y_preds,
  labels).item()\<close>, \<open>backward_step\<close> is \<open>loss.backward(); optimizer.step();
  optimizer.zero_grad()\<close>, \<open>scheduler_step\<close> is \<open>lr_scheduler.step()\<close>, which also sets
  the optimizer's learning rate, \<open>set_train\<close> and \<open>set_eval\<close> are \<open>model.train()\<close> and
  \<open>model.eval()\<close>, and \<open>elapsed\<close> is the training time the clock measures for an epoch.
\<close>

record ('mt, 'sn) metric_class =
  mc_new :: "nat \<Rightarrow> 'mt"
  mc_update :: "'mt \<Rightarrow> real tensor4 \<Rightarrow> int tensor3 \<Rightarrow> error + 'mt"
  mc_compute :: "'mt \<Rightarrow> error + 'sn"

definition IoU_class :: "(IoU, snapshot) metric_class" where
  "IoU_class = \<lparr>mc_new = IoU_init, mc_update = update, mc_compute = (\<lambda>self. compute self None)\<rparr>"

subsection \<open>\<open>evaluate_model\<close>\<close>

fun eval_loop ::
  "('m, 'o, 's, 'x) collab \<Rightarrow> ('mt, 'sn) metric_class \<Rightarrow> 'm \<Rightarrow> ('x \<times> int tensor3) list
     \<Rightarrow> real \<Rightarrow> 'mt \<Rightarrow> error + (real \<times> 'mt)" where
  "eval_loop c mc model [] total_loss metric_object = Inr (total_loss, metric_object)"
| "eval_loop c mc model ((inputs, labels) # rest) total_loss metric_object =
     (let y_preds = forward c model inputs;
          loss = criterion c y_preds labels
      in case mc_update mc metric_object y_preds labels of Inl e \<Rightarrow> Inl e
         | Inr metric_object' \<Rightarrow> eval_loop c mc model rest (total_loss + loss) metric_object')"

text \<open>
  The model is returned too, since \<open>model.eval()\<close> changes it. Dividing the float
  \<open>total_loss\<close> by a length of zero raises.
\<close>

definition evaluate_model ::
  "('m, 'o, 's, 'x) collab \<Rightarrow> 'm \<Rightarrow> ('x \<times> int tensor3) list \<Rightarrow> ('mt, 'sn) metric_class
     \<Rightarrow> nat \<Rightarrow> error + ('m \<times> real \<times> 'sn)" where
  "evaluate_model c model dataloader mc n_classes =
     (let model = set_eval c model in
      case eval_loop c mc model dataloader 0 (mc_new mc n_classes) of Inl e \<Rightarrow> Inl e
      | Inr (total_loss, metric_object) \<Rightarrow>
          if length dataloader = 0 then Inl ZeroDivisionError
          else (case mc_compute mc metric_object of Inl e \<Rightarrow> Inl e
                | Inr evaluation_metric \<Rightarrow>
                    Inr (model, total_loss / real (length dataloader), evaluation_metric)))"

text \<open>
  The specification's account of the pass, for comparison with the loop: the metric
  object updated once with each batch in order, and the list of the batch losses.
\<close>

fun update_all ::
  "('m, 'o, 's, 'x) collab \<Rightarrow> ('mt, 'sn) metric_class \<Rightarrow> 'm \<Rightarrow> ('x \<times> int tensor3) list
     \<Rightarrow> 'mt \<Rightarrow> error + 'mt" where
  "update_all c mc m [] mo = Inr mo"
| "update_all c mc m ((x, l) # rest) mo =
     (case mc_update mc mo (forward c m x) l of Inl e \<Rightarrow> Inl e
      | Inr mo' \<Rightarrow> update_all c mc m rest mo')"

definition batch_losses ::
  "('m, 'o, 's, 'x) collab \<Rightarrow> 'm \<Rightarrow> ('x \<times> int tensor3) list \<Rightarrow> real list" where
  "batch_losses c m bs = map (\<lambda>(x, l). criterion c (forward c m x) l) bs"

subsection \<open>\<open>train_validate_model\<close>\<close>

text \<open>The training loop over the batches of one epoch.\<close>

fun train_loop ::
  "('m, 'o, 's, 'x) collab \<Rightarrow> ('x \<times> int tensor3) list
     \<Rightarrow> 'm \<times> 'o \<times> 's option \<times> real \<times> nat \<Rightarrow> 'm \<times> 'o \<times> 's option \<times> real \<times> nat" where
  "train_loop c [] st = st"
| "train_loop c ((inputs, labels) # rest) (model, optimizer, lr_scheduler, train_loss, n) =
     (let y_preds = forward c model inputs;
          loss = criterion c y_preds labels;
          (model', optimizer') = backward_step c model optimizer inputs labels;
          (lr_scheduler', optimizer'') =
             (case lr_scheduler of None \<Rightarrow> (None, optimizer')
              | Some s \<Rightarrow> (let (s', o') = scheduler_step c s optimizer' in (Some s', o')))
      in train_loop c rest (model', optimizer'', lr_scheduler', train_loss + loss, Suc n))"

record 'sn epoch_record =
  epoch :: int
  trainLoss :: real
  validationLoss :: real
  metrices :: 'sn
  duration_train :: nat

text \<open>
  What \<open>torch.save\<close> writes. The source stores the model and the optimizer both as
  objects and as state dictionaries; an object is its state here, so each is stored once.
\<close>

record ('m, 'o, 's, 'sn) checkpoint =
  ck_model :: 'm
  ck_optimizer :: 'o
  ck_lr_scheduler :: "'s option"
  ck_min_val_loss :: fval
  ck_results :: "'sn epoch_record list"
  ck_epoch :: int

text \<open>The model folder: the two checkpoint files, each present or not.\<close>

record ('m, 'o, 's, 'sn) folder =
  last_pt :: "('m, 'o, 's, 'sn) checkpoint option"
  best_pt :: "('m, 'o, 's, 'sn) checkpoint option"

datatype pt_file = LastPt | BestPt

text \<open>
  The variables of the run. \<open>saved\<close> lists the calls of \<open>torch.save\<close> in order, with
  the epoch of each, and \<open>steps\<close> counts the calls of \<open>optimizer.step()\<close>: both are kept
  for the statements only.
\<close>

record ('m, 'o, 's, 'sn) run =
  model :: 'm
  optimizer :: 'o
  lr_scheduler :: "'s option"
  results :: "'sn epoch_record list"
  min_val_loss :: fval
  best_epoch :: int
  files :: "('m, 'o, 's, 'sn) folder"
  saved :: "(pt_file \<times> int) list"
  steps :: nat

datatype flow = Continue | Break

text \<open>One pass through the body of the loop over the epochs.\<close>

definition epoch_body ::
  "('m, 'o, 's, 'x) collab \<Rightarrow> ('mt, 'sn) metric_class \<Rightarrow> ('x \<times> int tensor3) list
     \<Rightarrow> ('x \<times> int tensor3) list \<Rightarrow> nat \<Rightarrow> int \<Rightarrow> int \<Rightarrow> ('m, 'o, 's, 'sn) run
     \<Rightarrow> error + (('m, 'o, 's, 'sn) run \<times> flow)" where
  "epoch_body c mc dataloader_train dataloader_valid n_classes early_stop_threshold ep st =
     (case train_loop c dataloader_train
             (set_train c (model st), optimizer st, lr_scheduler st, 0, steps st) of
        (model1, optimizer1, lr_scheduler1, train_loss_sum, n) \<Rightarrow>
      if length dataloader_train = 0 then Inl ZeroDivisionError
      else
      let train_loss = train_loss_sum / real (length dataloader_train) in
      case evaluate_model c model1 dataloader_valid mc n_classes of Inl e \<Rightarrow> Inl e
      | Inr (model2, validation_loss, validation_metric) \<Rightarrow>
      let results' = results st @
             [\<lparr>epoch = ep, trainLoss = train_loss, validationLoss = validation_loss,
               metrices = validation_metric, duration_train = elapsed c ep\<rparr>];
          ckpt = \<lparr>ck_model = model2, ck_optimizer = optimizer1,
                  ck_lr_scheduler = lr_scheduler1, ck_min_val_loss = min_val_loss st,
                  ck_results = results', ck_epoch = ep\<rparr>;
          st1 = st\<lparr>model := model2, optimizer := optimizer1, lr_scheduler := lr_scheduler1,
                   results := results', steps := n,
                   files := (files st)\<lparr>last_pt := Some ckpt\<rparr>,
                   saved := saved st @ [(LastPt, ep)]\<rparr>
      in if fle (Fin validation_loss) (min_val_loss st1) then
           Inr (st1\<lparr>min_val_loss := Fin validation_loss, best_epoch := ep,
                    files := (files st1)\<lparr>best_pt :=
                                Some (ckpt\<lparr>ck_min_val_loss := Fin validation_loss\<rparr>)\<rparr>,
                    saved := saved st1 @ [(BestPt, ep)]\<rparr>, Continue)
         else if early_stop_threshold \<noteq> - 1 then
           (if ep - best_epoch st1 > early_stop_threshold then Inr (st1, Break)
            else Inr (st1, Continue))
         else Inr (st1, Continue))"

text \<open>The loop over \<open>range(epochs_trained, num_epochs)\<close>, with its \<open>break\<close>.\<close>

fun epoch_loop ::
  "('m, 'o, 's, 'x) collab \<Rightarrow> ('mt, 'sn) metric_class \<Rightarrow> ('x \<times> int tensor3) list
     \<Rightarrow> ('x \<times> int tensor3) list \<Rightarrow> nat \<Rightarrow> int \<Rightarrow> int list \<Rightarrow> ('m, 'o, 's, 'sn) run
     \<Rightarrow> error + ('m, 'o, 's, 'sn) run" where
  "epoch_loop c mc dl_train dl_valid n_classes stop [] st = Inr st"
| "epoch_loop c mc dl_train dl_valid n_classes stop (ep # eps) st =
     (case epoch_body c mc dl_train dl_valid n_classes stop ep st of Inl e \<Rightarrow> Inl e
      | Inr (st', Break) \<Rightarrow> Inr st'
      | Inr (st', Continue) \<Rightarrow> epoch_loop c mc dl_train dl_valid n_classes stop eps st')"

text \<open>\<open>min(xs, key=f)\<close> on a non-empty list: the first element with the least key.\<close>

fun py_min_key :: "('a \<Rightarrow> real) \<Rightarrow> 'a \<Rightarrow> 'a list \<Rightarrow> 'a" where
  "py_min_key f best [] = best"
| "py_min_key f best (x # xs) = py_min_key f (if f x < f best then x else best) xs"

text \<open>
  Loading the ``last'' checkpoint. With a scheduler configured, the checkpoint's
  scheduler is asked for its state, which raises when the checkpoint holds \<open>None\<close>.
\<close>

definition load_last ::
  "('m, 'o, 's, 'sn) checkpoint \<Rightarrow> 's option
     \<Rightarrow> error + ('m \<times> 'o \<times> 's option \<times> 'sn epoch_record list)" where
  "load_last checkpoint lr_sched =
     (case lr_sched of
        None \<Rightarrow> Inr (ck_model checkpoint, ck_optimizer checkpoint, None, ck_results checkpoint)
      | Some _ \<Rightarrow>
          (case ck_lr_scheduler checkpoint of None \<Rightarrow> Inl AttributeError
           | Some s \<Rightarrow>
               Inr (ck_model checkpoint, ck_optimizer checkpoint, Some s,
                    ck_results checkpoint)))"

text \<open>
  \<open>plot_training_results\<close> draws and returns nothing, but it selects the column
  \<open>epoch\<close> of the frame, and a frame built from an empty list has no columns.
\<close>

definition plot_training_results :: "'sn epoch_record list \<Rightarrow> error + unit" where
  "plot_training_results df = (if df = [] then Inl KeyError else Inr ())"

text \<open>
  The state before the loop: what the start of \<open>train_validate_model\<close> computes from
  the folder on disk (\<open>None\<close> when the folder does not exist), together with
  \<open>epochs_trained\<close>.
\<close>

definition startup ::
  "'m \<Rightarrow> 'o \<Rightarrow> 's option \<Rightarrow> ('m, 'o, 's, 'sn) folder option
     \<Rightarrow> error + (('m, 'o, 's, 'sn) run \<times> int)" where
  "startup model0 optimizer0 lr_sched disk =
     (let fresh = \<lparr>model = model0, optimizer = optimizer0, lr_scheduler = lr_sched,
                   results = [], min_val_loss = PInf, best_epoch = - 1,
                   files = (case disk of None \<Rightarrow> \<lparr>last_pt = None, best_pt = None\<rparr>
                            | Some d \<Rightarrow> d),
                   saved = [], steps = 0\<rparr>
      in case (case disk of None \<Rightarrow> None | Some d \<Rightarrow> last_pt d) of
           None \<Rightarrow> Inr (fresh, 0)
         | Some checkpoint \<Rightarrow>
             (case load_last checkpoint lr_sched of Inl e \<Rightarrow> Inl e
              | Inr (m, opt, sch, res) \<Rightarrow>
                  let st = fresh\<lparr>model := m, optimizer := opt, lr_scheduler := sch,
                                 results := res\<rparr>
                  in (case res of
                        [] \<Rightarrow> Inr (st, 0)
                      | r # rs \<Rightarrow>
                          Inr (st\<lparr>min_val_loss :=
                                     Fin (validationLoss (py_min_key validationLoss r rs)),
                                  best_epoch := epoch (py_min_key validationLoss r rs)\<rparr>,
                               epoch (last res) + 1))))"

text \<open>
  The result is the value returned (\<open>None\<close>, or the frame of the records) and the state
  the run leaves behind.
\<close>

definition train_validate_model ::
  "('m, 'o, 's, 'x) collab \<Rightarrow> 'm \<Rightarrow> int \<Rightarrow> 'o \<Rightarrow> ('x \<times> int tensor3) list
     \<Rightarrow> ('x \<times> int tensor3) list \<Rightarrow> ('mt, 'sn) metric_class \<Rightarrow> nat \<Rightarrow> 's option
     \<Rightarrow> ('m, 'o, 's, 'sn) folder option \<Rightarrow> int
     \<Rightarrow> error + ('sn epoch_record list option \<times> ('m, 'o, 's, 'sn) run)" where
  "train_validate_model c model0 num_epochs optimizer0 dataloader_train dataloader_valid mc
       n_classes lr_sched disk early_stop =
     (case startup model0 optimizer0 lr_sched disk of Inl e \<Rightarrow> Inl e
      | Inr (st, epochs_trained) \<Rightarrow>
          if results st \<noteq> [] \<and> epochs_trained \<ge> num_epochs then Inr (None, st)
          else
            (case epoch_loop c mc dataloader_train dataloader_valid n_classes early_stop
                    [epochs_trained..num_epochs - 1] st of
               Inl e \<Rightarrow> Inl e
             | Inr st' \<Rightarrow>
                 (case plot_training_results (results st') of Inl e \<Rightarrow> Inl e
                  | Inr _ \<Rightarrow> Inr (Some (results st'), st'))))"


section \<open>Example inputs\<close>

text \<open>
  Two batches with two classes and samples of three pixels in a row: one sample, whose
  last pixel has the label 5 that no class has, and two samples.
\<close>

definition ex_preds :: "real tensor4" where
  "ex_preds = [[[[0.1, 0.9, 0.3]], [[0.5, 0.2, 0.3]]]]"

definition ex_labels :: "int tensor3" where
  "ex_labels = [[[0, 1, 5]]]"

definition ex_preds2 :: "real tensor4" where
  "ex_preds2 = [[[[0.7, 0.2, 0.6]], [[0.1, 0.4, 0.5]]],
                [[[0.3, 0.8, 0.1]], [[0.6, 0.1, 0.2]]]]"

definition ex_labels2 :: "int tensor3" where
  "ex_labels2 = [[[0, 1, 1]], [[1, 1, 0]]]"

text \<open>
  A metric object of one class that has counted \<open>2 ^ 53\<close> pixels, and a batch of one
  pixel of that class.
\<close>

definition big_metric :: IoU where
  "big_metric = \<lparr>iou_metric = 0, num_classes = 1,
                 confusion_matrix = [[9007199254740992]]\<rparr>"

definition one_pred :: "real tensor4" where
  "one_pred = [[[[0]]]]"

definition one_label :: "int tensor3" where
  "one_label = [[[0]]]"

text \<open>A metric object of three classes whose third class was never seen nor predicted.\<close>

definition ex_metric :: IoU where
  "ex_metric = \<lparr>iou_metric = 0, num_classes = 3,
                confusion_matrix = [[2, 1, 0], [0, 3, 0], [0, 0, 0]]\<rparr>"

text \<open>
  Collaborators for an evaluation pass: the inputs are the predictions themselves and
  the loss of a batch is its number of samples. The loader has a batch of two samples
  and a batch of one.
\<close>

definition id_collab :: "(unit, unit, unit, real tensor4) collab" where
  "id_collab = \<lparr>forward = (\<lambda>m x. x), criterion = (\<lambda>y l. real (length y)),
                backward_step = (\<lambda>m opt x l. (m, opt)),
                scheduler_step = (\<lambda>s opt. (s, opt)),
                set_train = (\<lambda>m. m), set_eval = (\<lambda>m. m), elapsed = (\<lambda>e. 0)\<rparr>"

definition id_batches :: "(real tensor4 \<times> int tensor3) list" where
  "id_batches = [(ex_preds @ ex_preds, ex_labels @ ex_labels), (ex_preds, ex_labels)]"

text \<open>
  Collaborators for a training run: the model is the number of optimizer steps taken,
  every loader has one batch of one pixel, and the loss is a function of the model, so
  that the validation loss of epoch \<open>e\<close> is \<open>f (e + 1)\<close>. With \<open>ex_loss\<close> the
  validation losses of the epochs 0 to 4 are 0.5, 0.4, 0.45, 0.46 and 0.47.
\<close>

definition ex_loss :: "nat \<Rightarrow> real" where
  "ex_loss m = (if m = 1 then 0.5 else if m = 2 then 0.4 else if m = 3 then 0.45
                else if m = 4 then 0.46 else 0.47)"

definition ex_collab :: "(nat \<Rightarrow> real) \<Rightarrow> (nat, unit, unit, unit) collab" where
  "ex_collab f = \<lparr>forward = (\<lambda>m x. [[[[f m]]]]),
                  criterion = (\<lambda>y l. hd (hd (hd (hd y)))),
                  backward_step = (\<lambda>m opt x l. (Suc m, opt)),
                  scheduler_step = (\<lambda>s opt. (s, opt)),
                  set_train = (\<lambda>m. m), set_eval = (\<lambda>m. m), elapsed = (\<lambda>e. 0)\<rparr>"

definition ex_batches :: "(unit \<times> int tensor3) list" where
  "ex_batches = [((), [[[0]]])]"

definition ex_run ::
  "int \<Rightarrow> int \<Rightarrow> error + (snapshot epoch_record list option \<times> (nat, unit, unit, snapshot) run)" where
  "ex_run n stop =
     train_validate_model (ex_collab ex_loss) 0 n () ex_batches ex_batches IoU_class 1
       None None stop"

text \<open>A run after epoch 0, whose validation loss was 0.5.\<close>

definition tie_state :: "(nat, unit, unit, snapshot) run" where
  "tie_state = \<lparr>model = 1, optimizer = (), lr_scheduler = None, results = [],
                min_val_loss = Fin (1 / 2), best_epoch = 0,
                files = \<lparr>last_pt = None, best_pt = None\<rparr>, saved = [], steps = 1\<rparr>"

text \<open>Early stopping as the specification words it: enabled by a non-negative patience.\<close>

definition spec_early_stop_enabled :: "int \<Rightarrow> bool" where
  "spec_early_stop_enabled patience = (0 \<le> patience)"

text \<open>A run after epoch 3, whose best epoch was epoch 1 with the loss 0.4.\<close>

definition stall_state :: "(nat, unit, unit, snapshot) run" where
  "stall_state = \<lparr>model = 4, optimizer = (), lr_scheduler = None, results = [],
                  min_val_loss = Fin (2 / 5), best_epoch = 1,
                  files = \<lparr>last_pt = None, best_pt = None\<rparr>, saved = [], steps = 4\<rparr>"

text \<open>
  A ``last'' checkpoint written after epoch 2; the epochs 1 and 2 share the least
  validation loss.
\<close>

definition ex_records :: "unit epoch_record list" where
  "ex_records =
     [\<lparr>epoch = 0, trainLoss = 1, validationLoss = 1 / 2, metrices = (), duration_train = 7\<rparr>,
      \<lparr>epoch = 1, trainLoss = 1, validationLoss = 2 / 5, metrices = (), duration_train = 7\<rparr>,
      \<lparr>epoch = 2, trainLoss = 1, validationLoss = 2 / 5, metrices = (), duration_train = 7\<rparr>]"

definition ex_checkpoint :: "(nat, unit, unit, unit) checkpoint" where
  "ex_checkpoint = \<lparr>ck_model = 3, ck_optimizer = (), ck_lr_scheduler = None,
                    ck_min_val_loss = Fin (2 / 5), ck_results = ex_records, ck_epoch = 2\<rparr>"

definition ex_disk :: "(nat, unit, unit, unit) folder option" where
  "ex_disk = Some \<lparr>last_pt = Some ex_checkpoint, best_pt = None\<rparr>"

text \<open>A metric class that records nothing.\<close>

definition no_metric :: "(unit, unit) metric_class" where
  "no_metric = \<lparr>mc_new = (\<lambda>n. ()), mc_update = (\<lambda>mo y l. Inr mo), mc_compute = (\<lambda>mo. Inr ())\<rparr>"

section \<open>Properties of the metric class\<close>

subsection \<open>Auxiliary facts\<close>

lemma mask_index_true:
  "mask_index xs (map P xs) = Inr (filter P xs)"
  by (induction xs) (auto simp: mask_index_def)

lemma mask_pairs:
  "length ys = length xs \<Longrightarrow>
   map2 f (map fst (filter snd (zip xs (map P xs)))) (map fst (filter snd (zip ys (map P xs))))
   = map (\<lambda>(x, y). f x y) (filter (\<lambda>(x, y). P x) (zip xs ys))"
  by (induction ys xs rule: list_induct2) auto

lemma fast_hist_indices:
  assumes "length label_pred = length label_true"
  shows "fast_hist n label_true label_pred
         = reshape n n (bincount (cell_indices n label_true label_pred) (n ^ 2))"
  using assms mask_pairs[OF assms, of "\<lambda>t p. n * nat t + p" "\<lambda>t. 0 \<le> t \<and> t < int n"]
  by (simp add: fast_hist_def mask_index_def cell_indices_def valid_pairs_def Let_def)

lemma fast_hist_length_mismatch:
  "length label_pred \<noteq> length label_true \<Longrightarrow> fast_hist n label_true label_pred = Inl IndexError"
  by (simp add: fast_hist_def mask_index_def Let_def)

lemma bincount_len_ge: "m \<le> fold (\<lambda>x m. max (Suc x) m) xs m"
proof (induction xs arbitrary: m)
  case Nil then show ?case by simp
next
  case (Cons x xs)
  have "m \<le> max (Suc x) m" by simp
  also have "\<dots> \<le> fold (\<lambda>x m. max (Suc x) m) xs (max (Suc x) m)" by (rule Cons.IH)
  finally show ?case by simp
qed

lemma bincount_len_eq:
  "fold (\<lambda>x m. max (Suc x) m) xs m = m \<longleftrightarrow> (\<forall>x\<in>set xs. x < m)"
proof (induction xs arbitrary: m)
  case Nil then show ?case by simp
next
  case (Cons x xs)
  show ?case
  proof (cases "x < m")
    case True
    then have "max (Suc x) m = m" by simp
    with Cons.IH[of m] True show ?thesis by simp
  next
    case False
    then have "m < max (Suc x) m" by simp
    also have "\<dots> \<le> fold (\<lambda>x m. max (Suc x) m) xs (max (Suc x) m)" by (rule bincount_len_ge)
    finally show ?thesis using False by simp
  qed
qed

lemma length_bincount:
  "length (bincount xs m) = m \<longleftrightarrow> (\<forall>x\<in>set xs. x < m)"
  by (simp add: bincount_def bincount_len_eq)

lemma take_drop_map_upt:
  assumes "i < n"
  shows "take n (drop (i * n) (map f [0..<n * n])) = map (\<lambda>j. f (i * n + j)) [0..<n]"
proof (rule nth_equalityI)
  have "i * n + n \<le> n * n"
  proof -
    have "Suc i * n \<le> n * n" using assms by (intro mult_le_mono1) simp
    then show ?thesis by (simp add: add.commute)
  qed
  then show "length (take n (drop (i * n) (map f [0..<n * n]))) = length (map (\<lambda>j. f (i * n + j)) [0..<n])"
    by simp
  fix j assume "j < length (take n (drop (i * n) (map f [0..<n * n])))"
  then have j: "j < n" by simp
  have "i * n + j < n * n" using \<open>i * n + n \<le> n * n\<close> j by simp
  then show "take n (drop (i * n) (map f [0..<n * n])) ! j = map (\<lambda>j. f (i * n + j)) [0..<n] ! j"
    using j by (simp add: drop_map)
qed

lemma reshape_bincount:
  "reshape n n (bincount xs (n ^ 2))
   = (if \<forall>x\<in>set xs. x < n * n then Inr (hist_cells n xs) else Inl ValueError)"
proof (cases "\<forall>x\<in>set xs. x < n * n")
  case True
  then have len: "fold (\<lambda>x m. max (Suc x) m) xs (n * n) = n * n"
    by (simp add: bincount_len_eq)
  have "map (\<lambda>i. take n (drop (i * n) (map (\<lambda>k. int (count_list xs k)) [0..<n * n]))) [0..<n]
        = hist_cells n xs"
    unfolding hist_cells_def by (rule map_cong) (simp_all add: take_drop_map_upt)
  with True len show ?thesis
    by (simp add: reshape_def bincount_def power2_eq_square)
next
  case False
  then have "length (bincount xs (n ^ 2)) \<noteq> n * n"
    using length_bincount[of xs "n * n"] by (simp add: power2_eq_square)
  with False show ?thesis by (simp add: reshape_def)
qed

lemma fast_hist_closed:
  assumes "length label_pred = length label_true"
  shows "fast_hist n label_true label_pred
         = (if \<forall>x\<in>set (cell_indices n label_true label_pred). x < n * n
            then Inr (hist_cells n (cell_indices n label_true label_pred))
            else Inl ValueError)"
  by (simp add: fast_hist_indices[OF assms] reshape_bincount)

lemma argmax_less: "xs \<noteq> [] \<Longrightarrow> argmax xs < length xs"
  by (induction xs rule: argmax.induct) (auto simp: Let_def)

lemma argmax_sample_ok:
  assumes "sample_shape_ok s l"
  shows "\<exists>p. argmax_sample s = Inr p \<and> map length p = map length l
             \<and> (\<forall>row\<in>set p. \<forall>x\<in>set row. x < length s)"
proof -
  from assms obtain plane0 rest where s: "s = plane0 # rest"
    by (cases s) (auto simp: sample_shape_ok_def)
  from assms s have sh: "list_all2 (\<lambda>r lr. length r = length lr) plane0 l"
    by (simp add: sample_shape_ok_def)
  then have len: "length plane0 = length l" and rows: "\<And>h. h < length l \<Longrightarrow> length (plane0 ! h) = length (l ! h)"
    by (auto simp: list_all2_conv_all_nth)
  let ?p = "map (\<lambda>h. map (\<lambda>w. argmax (map (\<lambda>plane. plane ! h ! w) s)) [0..<length (plane0 ! h)]) [0..<length plane0]"
  have 1: "argmax_sample s = Inr ?p" by (simp add: argmax_sample_def s)
  have 2: "map length ?p = map length l"
    by (rule nth_equalityI) (simp_all add: len rows)
  have 3: "\<forall>row\<in>set ?p. \<forall>x\<in>set row. x < length s"
  proof (intro ballI)
    fix row x assume "row \<in> set ?p" "x \<in> set row"
    then obtain h w where "x = argmax (map (\<lambda>plane. plane ! h ! w) s)" by auto
    moreover have "map (\<lambda>plane. plane ! h ! w) s \<noteq> []" by (simp add: s)
    ultimately show "x < length s" using argmax_less[of "map (\<lambda>plane. plane ! h ! w) s"] by simp
  qed
  from 1 2 3 show ?thesis by blast
qed

lemma length_concat_map_length:
  "map length p = map length l \<Longrightarrow> length (concat p) = length (concat l)"
  by (simp add: length_concat)

lemma torch_argmax_ok:
  assumes "shapes_match y l"
  shows "\<exists>ps. torch_argmax_dim1 y = Inr ps \<and> length (flatten ps) = length (flatten l)
              \<and> (\<forall>n. (\<forall>s\<in>set y. length s = n) \<longrightarrow> (\<forall>x\<in>set (flatten ps). x < n))"
  using assms unfolding shapes_match_def
proof (induction y l rule: list_all2_induct)
  case Nil
  then show ?case by (simp add: flatten_def)
next
  case (Cons s y l ls)
  from argmax_sample_ok[OF Cons.hyps(1)] obtain p where
    p: "argmax_sample s = Inr p" "map length p = map length l"
       "\<forall>row\<in>set p. \<forall>x\<in>set row. x < length s" by blast
  from Cons.IH obtain ps where
    ps: "torch_argmax_dim1 y = Inr ps" "length (flatten ps) = length (flatten ls)"
        "\<forall>n. (\<forall>s\<in>set y. length s = n) \<longrightarrow> (\<forall>x\<in>set (flatten ps). x < n)" by blast
  have "torch_argmax_dim1 (s # y) = Inr (p # ps)" by (simp add: p ps)
  moreover have "length (flatten (p # ps)) = length (flatten (l # ls))"
    using ps(2) length_concat_map_length[OF p(2)] by (simp add: flatten_def)
  moreover have "\<forall>n. (\<forall>s\<in>set (s # y). length s = n) \<longrightarrow> (\<forall>x\<in>set (flatten (p # ps)). x < n)"
  proof (intro allI impI ballI)
    fix n x assume n: "\<forall>s\<in>set (s # y). length s = n" and x: "x \<in> set (flatten (p # ps))"
    from x have "x \<in> set (concat p) \<or> x \<in> set (flatten ps)" by (simp add: flatten_def)
    then show "x < n"
    proof
      assume "x \<in> set (concat p)"
      then show ?thesis using p(3) n by auto
    next
      assume "x \<in> set (flatten ps)"
      then show ?thesis using ps(3) n by auto
    qed
  qed
  ultimately show ?case by blast
qed

lemma count_list_map:
  "count_list (map f xs) k = length (filter (\<lambda>x. f x = k) xs)"
  by (induction xs) auto

lemma cell_index_inj:
  fixes n t p i j :: nat
  assumes "p < n" "j < n"
  shows "n * t + p = i * n + j \<longleftrightarrow> t = i \<and> p = j"
proof
  assume eq: "n * t + p = i * n + j"
  have "(n * t + p) div n = t" using assms by simp
  moreover have "(i * n + j) div n = i" using assms by simp
  ultimately have "t = i" using eq by simp
  with eq show "t = i \<and> p = j" by (simp add: mult.commute)
qed (simp add: mult.commute)

lemma cell_count:
  assumes "\<forall>p\<in>set label_pred. p < n" "i < n" "j < n"
  shows "count_list (cell_indices n label_true label_pred) (i * n + j)
         = length (filter (\<lambda>(t, p). t = int i \<and> p = j) (zip label_true label_pred))"
proof -
  have "filter (\<lambda>x. (case x of (t, p) \<Rightarrow> n * nat t + p) = i * n + j) (valid_pairs n label_true label_pred)
        = filter (\<lambda>(t, p). t = int i \<and> p = j) (zip label_true label_pred)"
    unfolding valid_pairs_def filter_filter
  proof (rule filter_cong[OF refl])
    fix x assume xin: "x \<in> set (zip label_true label_pred)"
    obtain t p where x: "x = (t, p)" by (cases x)
    with xin have "p \<in> set label_pred" by (auto dest: set_zip_rightD)
    then have p: "p < n" using assms(1) by simp
    show "((case x of (t, p) \<Rightarrow> 0 \<le> t \<and> t < int n) \<and> (case x of (t, p) \<Rightarrow> n * nat t + p) = i * n + j)
          = (case x of (t, p) \<Rightarrow> t = int i \<and> p = j)"
    proof (cases "0 \<le> t \<and> t < int n")
      case True
      then have "nat t = i \<longleftrightarrow> t = int i" by auto
      with True cell_index_inj[OF p assms(3), of "nat t" i] show ?thesis by (simp add: x)
    next
      case False
      then have "t \<noteq> int i" using assms(2) by auto
      with False show ?thesis by (auto simp: x)
    qed
  qed
  then show ?thesis by (simp add: cell_indices_def count_list_map)
qed

lemma cell_indices_bound:
  assumes "\<forall>p\<in>set label_pred. p < n"
  shows "\<forall>x\<in>set (cell_indices n label_true label_pred). x < n * n"
proof
  fix x assume "x \<in> set (cell_indices n label_true label_pred)"
  then obtain t p where x: "x = n * nat t + p" and tp: "(t, p) \<in> set (zip label_true label_pred)"
    and t: "0 \<le> t" "t < int n"
    by (auto simp: cell_indices_def valid_pairs_def)
  from tp have "p < n" using assms by (auto dest: set_zip_rightD)
  moreover from t have "nat t < n" by simp
  then have "n * Suc (nat t) \<le> n * n" by (intro mult_le_mono2) simp
  ultimately show "x < n * n" by (simp add: x)
qed

lemma f64_exp_small: "x < 9007199254740992 \<Longrightarrow> f64_exp x = 0"
  by (subst f64_exp.simps) simp

lemma f64_round_small:
  assumes "0 \<le> x" "x < 9007199254740992"
  shows "f64_round x = x"
proof -
  have "f64_exp \<bar>x\<bar> = 0" using assms by (intro f64_exp_small) simp
  then show ?thesis using assms(1) by (simp add: f64_round_def Let_def sgn_if)
qed

lemma f64_round_2_53: "f64_round 9007199254740992 = 9007199254740992"
  by code_simp

lemma f64_round_exact:
  assumes "0 \<le> x" "x \<le> 2 ^ 53"
  shows "f64_round x = x"
proof (cases "x = 9007199254740992")
  case True
  then show ?thesis by (simp only: f64_round_2_53)
next
  case False
  with assms have "x < 9007199254740992" by simp
  with assms(1) show ?thesis by (rule f64_round_small)
qed

lemma f64_round_nonneg:
  assumes "0 \<le> x"
  shows "0 \<le> f64_round x"
proof -
  have "0 \<le> \<bar>x\<bar> div 2 ^ f64_exp \<bar>x\<bar>" by (simp add: pos_imp_zdiv_nonneg_iff)
  then show ?thesis using assms by (simp add: f64_round_def Let_def sgn_if)
qed

lemma f64_add_exact:
  assumes "0 \<le> x" "0 \<le> y" "x + y \<le> 2 ^ 53"
  shows "f64_add x y = x + y"
proof -
  have "y \<le> 2 ^ 53" using assms by linarith
  then have "f64_round y = y" using assms(2) by (intro f64_round_exact)
  then show ?thesis using assms by (simp add: f64_add_def f64_round_exact)
qed

lemma f64_add_nonneg: "0 \<le> x \<Longrightarrow> 0 \<le> y \<Longrightarrow> 0 \<le> f64_add x y"
  by (simp add: f64_add_def f64_round_nonneg)

lemma mat_add_nth:
  assumes "length a = n" "\<forall>row\<in>set a. length row = n" "i < n" "j < n"
  shows "mat_add a (hist_cells n xs) ! i ! j
         = f64_add (a ! i ! j) (int (count_list xs (i * n + j)))"
proof -
  have "length (a ! i) = n" using assms by simp
  then show ?thesis using assms by (simp add: mat_add_def hist_cells_def)
qed

lemma mat_plus_nth:
  assumes "length a = n" "\<forall>row\<in>set a. length row = n" "i < n" "j < n"
  shows "mat_plus a (hist_cells n xs) ! i ! j = a ! i ! j + int (count_list xs (i * n + j))"
proof -
  have "length (a ! i) = n" using assms by simp
  then show ?thesis using assms by (simp add: mat_plus_def hist_cells_def)
qed

lemma mat_plus_dims:
  assumes "length a = n" "\<forall>row\<in>set a. length row = n"
  shows "length (mat_plus a (hist_cells n xs)) = n
         \<and> (\<forall>row\<in>set (mat_plus a (hist_cells n xs)). length row = n)"
  using assms by (auto simp: mat_plus_def hist_cells_def set_zip)

lemma wf_matrix_cells:
  "wf_matrix n m \<longleftrightarrow>
     length m = n \<and> (\<forall>i<n. length (m ! i) = n \<and> (\<forall>j<n. 0 \<le> m ! i ! j))"
  by (auto simp: wf_matrix_def list_all_length)

lemma room_for_cells:
  "room_for k m \<longleftrightarrow> (\<forall>i<length m. \<forall>j<length (m ! i). m ! i ! j + int k \<le> 2 ^ 53)"
  by (simp add: room_for_def list_all_length)

lemma room_for_mono: "room_for k m \<Longrightarrow> k' \<le> k \<Longrightarrow> room_for k' m"
  unfolding room_for_cells by force

text \<open>Below \<open>2 ^ 53\<close> the float64 sum is the exact sum.\<close>

lemma mat_add_hist_exact:
  assumes wf: "wf_matrix n m" and room: "room_for k m" and len: "length xs \<le> k"
  shows "mat_add m (hist_cells n xs) = mat_plus m (hist_cells n xs)"
proof -
  from wf have lm: "length m = n" and rows: "\<And>i. i < n \<Longrightarrow> length (m ! i) = n"
    and nonneg: "\<And>i j. i < n \<Longrightarrow> j < n \<Longrightarrow> 0 \<le> m ! i ! j"
    by (simp_all add: wf_matrix_cells)
  have cell: "f64_add (m ! i ! j) (int (count_list xs c)) = m ! i ! j + int (count_list xs c)"
    if "i < n" "j < n" for i j c
  proof (rule f64_add_exact)
    show "0 \<le> m ! i ! j" using that by (rule nonneg)
    show "0 \<le> int (count_list xs c)" by simp
    have "m ! i ! j + int k \<le> 2 ^ 53"
      using room that lm rows unfolding room_for_cells by simp
    moreover have "count_list xs c \<le> k" using count_le_length[of xs c] len by simp
    ultimately show "m ! i ! j + int (count_list xs c) \<le> 2 ^ 53" by linarith
  qed
  show ?thesis
  proof (rule nth_equalityI)
    show "length (mat_add m (hist_cells n xs)) = length (mat_plus m (hist_cells n xs))"
      by (simp add: mat_add_def mat_plus_def)
    fix i assume "i < length (mat_add m (hist_cells n xs))"
    then have i: "i < n" by (simp add: mat_add_def hist_cells_def lm)
    show "mat_add m (hist_cells n xs) ! i = mat_plus m (hist_cells n xs) ! i"
    proof (rule nth_equalityI)
      show "length (mat_add m (hist_cells n xs) ! i) = length (mat_plus m (hist_cells n xs) ! i)"
        using i lm by (simp add: mat_add_def mat_plus_def hist_cells_def)
      fix j assume "j < length (mat_add m (hist_cells n xs) ! i)"
      then have j: "j < n" using i lm rows[OF i] by (simp add: mat_add_def hist_cells_def)
      have dims: "length m = n" "\<forall>row\<in>set m. length row = n"
        using lm rows by (auto simp: in_set_conv_nth)
      show "mat_add m (hist_cells n xs) ! i ! j = mat_plus m (hist_cells n xs) ! i ! j"
        by (simp add: mat_add_nth[OF dims i j] mat_plus_nth[OF dims i j] cell[OF i j])
    qed
  qed
qed

lemma wf_matrix_plus_hist:
  assumes "wf_matrix n m"
  shows "wf_matrix n (mat_plus m (hist_cells n xs))"
  using assms unfolding wf_matrix_cells by (simp add: mat_plus_def hist_cells_def)

lemma room_for_plus_hist:
  assumes wf: "wf_matrix n m" and room: "room_for (ka + kb) m" and len: "length xs \<le> ka"
  shows "room_for kb (mat_plus m (hist_cells n xs))"
proof -
  from wf have lm: "length m = n" and rows: "\<And>i. i < n \<Longrightarrow> length (m ! i) = n"
    by (simp_all add: wf_matrix_cells)
  have dims: "length m = n" "\<forall>row\<in>set m. length row = n"
    using lm rows by (auto simp: in_set_conv_nth)
  note d = mat_plus_dims[OF dims, of xs]
  show ?thesis
    unfolding room_for_cells
  proof (intro allI impI)
    fix i j
    assume "i < length (mat_plus m (hist_cells n xs))"
       and "j < length (mat_plus m (hist_cells n xs) ! i)"
    with d have i: "i < n" and j: "j < n" by auto
    have "m ! i ! j + int (ka + kb) \<le> 2 ^ 53"
      using room i j lm rows unfolding room_for_cells by simp
    moreover have "count_list xs (i * n + j) \<le> ka"
      using count_le_length[of xs "i * n + j"] len by simp
    ultimately show "mat_plus m (hist_cells n xs) ! i ! j + int kb \<le> 2 ^ 53"
      by (simp add: mat_plus_nth[OF dims i j])
  qed
qed

lemma length_cell_indices: "length (cell_indices n label_true label_pred) \<le> length label_true"
proof -
  have "length (cell_indices n label_true label_pred) \<le> length (zip label_true label_pred)"
    unfolding cell_indices_def valid_pairs_def length_map by (rule length_filter_le)
  then show ?thesis by simp
qed

lemma mat_add_dims:
  assumes "length a = n" "\<forall>row\<in>set a. length row = n"
  shows "length (mat_add a (hist_cells n xs)) = n
         \<and> (\<forall>row\<in>set (mat_add a (hist_cells n xs)). length row = n)"
  using assms by (auto simp: mat_add_def hist_cells_def set_zip)

lemma torch_argmax_append:
  "torch_argmax_dim1 (a @ b)
   = (case torch_argmax_dim1 a of Inl e \<Rightarrow> Inl e
      | Inr pa \<Rightarrow> (case torch_argmax_dim1 b of Inl e \<Rightarrow> Inl e | Inr pb \<Rightarrow> Inr (pa @ pb)))"
  by (induction a) (auto split: sum.splits)

lemma flatten_append: "flatten (a @ b) = flatten a @ flatten b"
  by (simp add: flatten_def)

lemma cell_indices_append:
  "length pa = length la \<Longrightarrow>
   cell_indices n (la @ lb) (pa @ pb) = cell_indices n la pa @ cell_indices n lb pb"
  by (simp add: cell_indices_def valid_pairs_def)

lemma map2_assoc:
  assumes "\<And>x y z. f (f x y) z = f x (f y z)"
  shows "map2 f (map2 f a b) c = map2 f a (map2 f b c)"
proof (induction a arbitrary: b c)
  case Nil then show ?case by simp
next
  case (Cons x a)
  show ?case
  proof (cases b)
    case Nil then show ?thesis by simp
  next
    case b: (Cons y b')
    show ?thesis
    proof (cases c)
      case Nil then show ?thesis by simp
    next
      case (Cons z c')
      with b Cons.IH[of b' c'] assms show ?thesis by simp
    qed
  qed
qed

lemma mat_plus_assoc: "mat_plus (mat_plus a b) c = mat_plus a (mat_plus b c)"
  unfolding mat_plus_def
  by (rule map2_assoc) (rule map2_assoc, simp)

lemma map2_map_same: "map2 g (map f1 xs) (map f2 xs) = map (\<lambda>i. g (f1 i) (f2 i)) xs"
  by (induction xs) auto

lemma hist_cells_append:
  "mat_plus (hist_cells n xs) (hist_cells n ys) = hist_cells n (xs @ ys)"
  by (simp add: mat_plus_def hist_cells_def map2_map_same)

lemma foldl_fadd_fin:
  "list_all is_fin_or_nan vs \<Longrightarrow>
   foldl fadd (Fin a) (filter (\<lambda>v. \<not> is_nan v) vs) = Fin (a + sum_list (defined_values vs))"
proof (induction vs arbitrary: a)
  case Nil then show ?case by (simp add: defined_values_def)
next
  case (Cons v vs)
  then show ?case
    by (cases v) (simp_all add: defined_values_def is_fin_or_nan_def)
qed

lemma length_filter_not_nan:
  "list_all is_fin_or_nan vs \<Longrightarrow>
   length (filter (\<lambda>v. \<not> is_nan v) vs) = length (defined_values vs)"
proof (induction vs)
  case Nil then show ?case by (simp add: defined_values_def)
next
  case (Cons v vs)
  then show ?case
    by (cases v) (simp_all add: defined_values_def is_fin_or_nan_def)
qed

lemma nanmean_mean_defined:
  assumes "list_all is_fin_or_nan vs"
  shows "nanmean vs = mean_defined vs"
proof -
  have "filter (\<lambda>v. \<not> is_nan v) vs = [] \<longleftrightarrow> defined_values vs = []"
    using length_filter_not_nan[OF assms] by (metis length_0_conv)
  then show ?thesis
    using foldl_fadd_fin[OF assms, of 0] length_filter_not_nan[OF assms]
    by (simp add: nanmean_def mean_defined_def Let_def)
qed

lemma wf_matrix_nth:
  assumes "wf_matrix n m" "c < n"
  shows "length (m ! c) = n" "\<forall>x\<in>set (m ! c). 0 \<le> x" "\<forall>row\<in>set m. length row = n \<and> 0 \<le> row ! c"
  using assms by (auto simp: wf_matrix_def list_all_iff)

lemma diag_le_row:
  assumes "wf_matrix n m" "c < n"
  shows "0 \<le> m ! c ! c" "m ! c ! c \<le> row_sum m c"
proof -
  have "m ! c ! c \<in> set (m ! c)" using wf_matrix_nth(1)[OF assms] assms(2) by simp
  then show "0 \<le> m ! c ! c" using wf_matrix_nth(2)[OF assms] by blast
  show "m ! c ! c \<le> row_sum m c"
    unfolding row_sum_def using wf_matrix_nth(2)[OF assms] \<open>m ! c ! c \<in> set (m ! c)\<close>
    by (intro member_le_sum_list) auto
qed

lemma diag_le_col:
  assumes "wf_matrix n m" "c < n"
  shows "m ! c ! c \<le> col_sum m c"
proof -
  have "m ! c \<in> set m" using assms by (simp add: wf_matrix_def)
  then have "m ! c ! c \<in> set (map (\<lambda>row. row ! c) m)" by auto
  then show ?thesis
    unfolding col_sum_def using wf_matrix_nth(3)[OF assms]
    by (intro member_le_sum_list) auto
qed

lemma col_sum_nonneg:
  assumes "wf_matrix n m" "c < n"
  shows "0 \<le> col_sum m c"
  unfolding col_sum_def using wf_matrix_nth(3)[OF assms] by (intro sum_list_nonneg) auto

lemma row_sum_nonneg:
  assumes "wf_matrix n m" "c < n"
  shows "0 \<le> row_sum m c"
  unfolding row_sum_def using wf_matrix_nth(2)[OF assms] by (intro sum_list_nonneg) auto

lemma np_div_iou:
  assumes "wf_matrix n m" "c < n"
  shows "np_div (of_int (m ! c ! c)) (of_int (row_sum m c + col_sum m c - m ! c ! c)) = iou_class m c"
proof -
  have "row_sum m c + col_sum m c - m ! c ! c = 0 \<Longrightarrow> m ! c ! c = 0"
    using diag_le_row[OF assms] diag_le_col[OF assms] by linarith
  then show ?thesis by (auto simp: np_div_def iou_class_def Let_def)
qed

lemma np_div_f1:
  assumes "wf_matrix n m" "c < n"
  shows "np_div (of_int (2 * m ! c ! c)) (of_int (row_sum m c + col_sum m c)) = f1_class m c"
proof -
  have "row_sum m c + col_sum m c = 0 \<Longrightarrow> m ! c ! c = 0"
    using diag_le_row[OF assms] diag_le_col[OF assms] by linarith
  then show ?thesis by (auto simp: np_div_def f1_class_def Let_def)
qed

lemma row_sums_upt: "length m = n \<Longrightarrow> row_sums m = map (row_sum m) [0..<n]"
  by (auto simp: row_sums_def row_sum_def intro: nth_equalityI)

lemma col_sums_upt: "wf_matrix n m \<Longrightarrow> col_sums m = map (col_sum m) [0..<n]"
  by (cases m) (auto simp: col_sums_def col_sum_def wf_matrix_def)

lemma np_diag_upt: "length m = n \<Longrightarrow> np_diag m = map (\<lambda>c. m ! c ! c) [0..<n]"
  by (simp add: np_diag_def)

lemma classwise_iou_eq:
  assumes "wf_matrix n m"
  shows "classwise_iou (metrics m) = map (iou_class m) [0..<n]"
proof -
  have len: "length m = n" using assms by (simp add: wf_matrix_def)
  have "classwise_iou (metrics m)
        = map (\<lambda>c. np_div (of_int (m ! c ! c)) (of_int (row_sum m c + col_sum m c - m ! c ! c))) [0..<n]"
    by (simp del: of_int_add of_int_diff of_int_mult
          add: metrics_def Let_def np_diag_upt[OF len] row_sums_upt[OF len]
          col_sums_upt[OF assms] map2_map_same)
  also have "\<dots> = map (iou_class m) [0..<n]"
    by (rule map_cong) (simp_all del: of_int_add of_int_diff of_int_mult add: np_div_iou[OF assms])
  finally show ?thesis .
qed

lemma classwise_f1_eq:
  assumes "wf_matrix n m"
  shows "classwise_f1 (metrics m) = map (f1_class m) [0..<n]"
proof -
  have len: "length m = n" using assms by (simp add: wf_matrix_def)
  have "classwise_f1 (metrics m)
        = map (\<lambda>c. np_div (of_int (2 * m ! c ! c)) (of_int (row_sum m c + col_sum m c))) [0..<n]"
    by (simp del: of_int_add of_int_diff of_int_mult
          add: metrics_def Let_def np_diag_upt[OF len] row_sums_upt[OF len]
          col_sums_upt[OF assms] map2_map_same)
  also have "\<dots> = map (f1_class m) [0..<n]"
    by (rule map_cong) (simp_all del: of_int_add of_int_diff of_int_mult add: np_div_f1[OF assms])
  finally show ?thesis .
qed

lemma miou_eq: "miou (metrics m) = nanmean (classwise_iou (metrics m))"
  by (simp add: metrics_def Let_def)

lemma f1_mean_eq: "f1_mean (metrics m) = nanmean (classwise_f1 (metrics m))"
  by (simp add: metrics_def Let_def)

lemma iou_class_fin_or_nan: "is_fin_or_nan (iou_class m c)"
  by (simp add: iou_class_def is_fin_or_nan_def Let_def)

lemma f1_class_fin_or_nan: "is_fin_or_nan (f1_class m c)"
  by (simp add: f1_class_def is_fin_or_nan_def Let_def)

lemma absent_class:
  assumes "wf_matrix n m" "c < n"
  shows "row_sum m c + col_sum m c - m ! c ! c = 0
         \<longleftrightarrow> (\<forall>x\<in>set (m ! c). x = 0) \<and> (\<forall>row\<in>set m. row ! c = 0)"
    and "row_sum m c + col_sum m c = 0
         \<longleftrightarrow> (\<forall>x\<in>set (m ! c). x = 0) \<and> (\<forall>row\<in>set m. row ! c = 0)"
proof -
  have r: "row_sum m c = 0 \<longleftrightarrow> (\<forall>x\<in>set (m ! c). x = 0)"
    unfolding row_sum_def using wf_matrix_nth(2)[OF assms]
    by (simp add: sum_list_nonneg_eq_0_iff)
  have c: "col_sum m c = 0 \<longleftrightarrow> (\<forall>row\<in>set m. row ! c = 0)"
    unfolding col_sum_def using wf_matrix_nth(3)[OF assms]
    by (subst sum_list_nonneg_eq_0_iff) auto
  have both: "row_sum m c + col_sum m c = 0 \<longleftrightarrow> row_sum m c = 0 \<and> col_sum m c = 0"
    using row_sum_nonneg[OF assms] col_sum_nonneg[OF assms] by linarith
  show "row_sum m c + col_sum m c = 0
         \<longleftrightarrow> (\<forall>x\<in>set (m ! c). x = 0) \<and> (\<forall>row\<in>set m. row ! c = 0)"
    using both r c by simp
  have "row_sum m c + col_sum m c - m ! c ! c = 0 \<longleftrightarrow> row_sum m c + col_sum m c = 0"
    using diag_le_row[OF assms] diag_le_col[OF assms] by linarith
  then show "row_sum m c + col_sum m c - m ! c ! c = 0
         \<longleftrightarrow> (\<forall>x\<in>set (m ! c). x = 0) \<and> (\<forall>row\<in>set m. row ! c = 0)"
    using both r c by simp
qed

lemma wf_matrix_zeros: "wf_matrix n (np_zeros n n)"
  by (simp add: wf_matrix_def np_zeros_def list_all_iff)

lemma wf_IoU_init: "wf_matrix (num_classes (IoU_init n)) (confusion_matrix (IoU_init n))"
  by (simp add: IoU_init_def wf_matrix_zeros)

lemma wf_matrix_add_hist:
  assumes "wf_matrix n m"
  shows "wf_matrix n (mat_add m (hist_cells n xs))"
proof -
  have len: "length m = n" and rows: "\<And>i. i < n \<Longrightarrow> length (m ! i) = n"
    and nonneg: "\<And>i j. i < n \<Longrightarrow> j < n \<Longrightarrow> 0 \<le> m ! i ! j"
    using assms by (auto simp: wf_matrix_def list_all_length)
  have l: "length (mat_add m (hist_cells n xs)) = n"
    using len by (simp add: mat_add_def hist_cells_def)
  have "\<And>i. i < n \<Longrightarrow> length (mat_add m (hist_cells n xs) ! i) = n
            \<and> (\<forall>j<n. 0 \<le> mat_add m (hist_cells n xs) ! i ! j)"
    using len rows nonneg by (simp add: mat_add_def hist_cells_def f64_add_nonneg)
  with l show ?thesis by (simp add: wf_matrix_def list_all_length)
qed

lemma update_preserves_wf:
  assumes wf: "wf_matrix (num_classes self) (confusion_matrix self)"
      and upd: "update self y_preds labels = Inr self'"
  shows "num_classes self' = num_classes self
         \<and> wf_matrix (num_classes self') (confusion_matrix self')"
proof -
  from upd obtain ps h where ps: "torch_argmax_dim1 y_preds = Inr ps"
    and h: "fast_hist (num_classes self) (flatten labels) (flatten ps) = Inr h"
    and s': "self' = self\<lparr>confusion_matrix := mat_add (confusion_matrix self) h\<rparr>"
    by (auto simp: update_def split: sum.splits)
  have len: "length (flatten ps) = length (flatten labels)"
    using h fast_hist_length_mismatch[of "flatten ps" "flatten labels" "num_classes self"]
    by (cases "length (flatten ps) = length (flatten labels)") auto
  from h have "h = hist_cells (num_classes self)
                    (cell_indices (num_classes self) (flatten labels) (flatten ps))"
    by (simp add: fast_hist_closed[OF len] split: if_splits)
  then show ?thesis using wf_matrix_add_hist[OF wf] by (simp add: s')
qed

lemma compute_None: "compute self None = Inr (metrics (confusion_matrix self))"
  by (simp add: compute_def arg_bool_def)

lemma compute_Some:
  "compute self (Some a) =
     (case concat a of [] \<Rightarrow> Inr (metrics (confusion_matrix self))
      | [x] \<Rightarrow> Inr (metrics (if x \<noteq> 0 then a else confusion_matrix self))
      | _ \<Rightarrow> Inl ValueError)"
  by (simp add: compute_def arg_bool_def array_bool_def del: concat_eq_Nil_conv
        split: list.split)

subsection \<open>Accumulation\<close>

text \<open>
  What \<open>update\<close> does to a matrix of counts that has room for the pixels of the batch:
  it succeeds, and every cell grows by the number of pixels with that true label and
  that predicted label.
\<close>

lemma update_cell_counts:
  assumes shapes: "shapes_match y_preds labels"
      and classes: "\<forall>s\<in>set y_preds. length s = num_classes self"
      and wf: "wf_matrix (num_classes self) (confusion_matrix self)"
      and room: "room_for (length (flatten labels)) (confusion_matrix self)"
  shows "\<exists>ps m'. torch_argmax_dim1 y_preds = Inr ps
           \<and> length (flatten ps) = length (flatten labels)
           \<and> (\<forall>p\<in>set (flatten ps). p < num_classes self)
           \<and> update self y_preds labels = Inr (self\<lparr>confusion_matrix := m'\<rparr>)
           \<and> length m' = num_classes self
           \<and> (\<forall>row\<in>set m'. length row = num_classes self)
           \<and> (\<forall>i<num_classes self. \<forall>j<num_classes self.
                 m' ! i ! j = confusion_matrix self ! i ! j
                   + int (length (filter (\<lambda>(t, p). t = int i \<and> p = j)
                                         (zip (flatten labels) (flatten ps)))))"
proof -
  let ?n = "num_classes self"
  from torch_argmax_ok[OF shapes] classes obtain ps where
    ps: "torch_argmax_dim1 y_preds = Inr ps" "length (flatten ps) = length (flatten labels)"
        "\<forall>x\<in>set (flatten ps). x < ?n" by blast
  let ?xs = "cell_indices ?n (flatten labels) (flatten ps)"
  let ?m = "mat_plus (confusion_matrix self) (hist_cells ?n ?xs)"
  from wf have dims: "length (confusion_matrix self) = ?n"
      "\<forall>row\<in>set (confusion_matrix self). length row = ?n"
    by (auto simp: wf_matrix_def list_all_iff)
  have fh: "fast_hist ?n (flatten labels) (flatten ps) = Inr (hist_cells ?n ?xs)"
    using cell_indices_bound[OF ps(3)] by (simp add: fast_hist_closed[OF ps(2)])
  have exact: "mat_add (confusion_matrix self) (hist_cells ?n ?xs) = ?m"
    by (rule mat_add_hist_exact[OF wf room length_cell_indices])
  have upd: "update self y_preds labels = Inr (self\<lparr>confusion_matrix := ?m\<rparr>)"
    by (simp add: update_def ps(1) fh exact)
  have cells: "\<forall>i<?n. \<forall>j<?n. ?m ! i ! j = confusion_matrix self ! i ! j
                   + int (length (filter (\<lambda>(t, p). t = int i \<and> p = j)
                                         (zip (flatten labels) (flatten ps))))"
    using mat_plus_nth[OF dims] cell_count[OF ps(3)] by simp
  from ps upd mat_plus_dims[OF dims] cells show ?thesis by blast
qed

text \<open>
  A metric object of one class reaches any count up to \<open>2 ^ 53\<close> from the initial
  zeros, here by a single batch of one row of \<open>k\<close> pixels; with \<open>k = 2 ^ 53\<close> the result
  is \<open>big_metric\<close>.
\<close>

lemma update_one_class_row:
  assumes k: "int k \<le> 2 ^ 53"
  shows "update (IoU_init 1) [[[replicate k 0]]] [[replicate k 0]]
         = Inr ((IoU_init 1)\<lparr>confusion_matrix := [[int k]]\<rparr>)"
proof -
  let ?y = "[[[replicate k 0]]] :: real tensor4" and ?l = "[[replicate k 0]] :: int tensor3"
  have c: "0 < num_classes (IoU_init 1)" by (simp add: IoU_init_def)
  have fl: "flatten ?l = replicate k 0" by (simp add: flatten_def)
  have h1: "shapes_match ?y ?l" by (simp add: shapes_match_def sample_shape_ok_def)
  have h2: "\<forall>s\<in>set ?y. length s = num_classes (IoU_init 1)" by (simp add: IoU_init_def)
  have h3: "wf_matrix (num_classes (IoU_init 1)) (confusion_matrix (IoU_init 1))"
    by (rule wf_IoU_init)
  have h4: "room_for (length (flatten ?l)) (confusion_matrix (IoU_init 1))"
    using k by (simp add: room_for_def IoU_init_def np_zeros_def fl)
  from update_cell_counts[OF h1 h2 h3 h4] obtain ps m' where
    r: "length (flatten ps) = length (flatten ?l)"
       "\<forall>p\<in>set (flatten ps). p < num_classes (IoU_init 1)"
       "update (IoU_init 1) ?y ?l = Inr ((IoU_init 1)\<lparr>confusion_matrix := m'\<rparr>)"
       "length m' = num_classes (IoU_init 1)"
       "\<forall>row\<in>set m'. length row = num_classes (IoU_init 1)"
       "\<forall>i<num_classes (IoU_init 1). \<forall>j<num_classes (IoU_init 1).
           m' ! i ! j = confusion_matrix (IoU_init 1) ! i ! j
             + int (length (filter (\<lambda>(t, p). t = int i \<and> p = j)
                                   (zip (flatten ?l) (flatten ps))))"
    by blast
  have all: "filter (\<lambda>(t, p). t = int 0 \<and> p = 0) (zip (flatten ?l) (flatten ps))
             = zip (flatten ?l) (flatten ps)"
  proof (rule filter_True, clarify)
    fix t p assume tp: "(t, p) \<in> set (zip (flatten ?l) (flatten ps))"
    then have "t \<in> set (replicate k 0)" unfolding fl by (rule set_zip_leftD)
    then have "t = 0" by simp
    moreover from tp have "p \<in> set (flatten ps)" by (rule set_zip_rightD)
    then have "p = 0" using r(2) by (simp add: IoU_init_def)
    ultimately show "t = int 0 \<and> p = 0" by simp
  qed
  have "m' ! 0 ! 0 = confusion_matrix (IoU_init 1) ! 0 ! 0
                       + int (length (zip (flatten ?l) (flatten ps)))"
    using r(6)[rule_format, OF c c] unfolding all .
  then have "m' ! 0 ! 0 = int k" using r(1) by (simp add: IoU_init_def np_zeros_def fl)
  moreover from r(4) obtain row where m': "m' = [row]"
    by (cases m') (auto simp: IoU_init_def)
  moreover from r(5) m' obtain x where "row = [x]"
    by (cases row) (auto simp: IoU_init_def)
  ultimately have "m' = [[int k]]" by simp
  with r(3) show ?thesis by simp
qed

text \<open>
  C7, as the specification states it, fails on the float64 matrix: in a metric object
  that has counted \<open>2 ^ 53\<close> pixels, a pixel with a valid label and a valid prediction
  leaves its cell as it was.
\<close>

theorem update_lost_increment_counterexample:
  "shapes_match one_pred one_label \<and> flatten one_label = [0]
   \<and> torch_argmax_dim1 one_pred = Inr [[[0]]]
   \<and> confusion_matrix big_metric = [[2 ^ 53]]
   \<and> update big_metric one_pred one_label = Inr big_metric"
proof -
  have "shapes_match one_pred one_label"
    by (simp add: shapes_match_def sample_shape_ok_def one_pred_def one_label_def)
  moreover have "flatten one_label = [0]" by (simp add: flatten_def one_label_def)
  moreover have "torch_argmax_dim1 one_pred = Inr [[[0]]]"
    by (simp add: one_pred_def argmax_sample_def)
  moreover have "confusion_matrix big_metric = [[2 ^ 53]]" by (simp add: big_metric_def)
  moreover have "update big_metric one_pred one_label = Inr big_metric" by code_simp
  ultimately show ?thesis by blast
qed

text \<open>
  C7, amended. In \<open>update\<close>, a pixel whose true label lies outside \<open>[0, num_classes)\<close>
  is left out, and every other pixel adds one to the cell (true class, predicted class),
  as long as every count of the matrix, increased by the number of pixels of the batch,
  is at most \<open>2 ^ 53\<close>: when moreover the shapes of predictions and labels agree and the
  class dimension of the predictions has \<open>num_classes\<close> entries, every predicted label
  is below \<open>num_classes\<close>, the call succeeds, the matrix keeps its
  \<open>num_classes \<times> num_classes\<close> shape, and each cell \<open>(i, j)\<close> grows by the number of
  pixels with true label \<open>i\<close> and predicted label \<open>j\<close>.
\<close>

theorem update_counts_valid_pixels:
  assumes shapes: "shapes_match y_preds labels"
      and classes: "\<forall>s\<in>set y_preds. length s = num_classes self"
      and wf: "wf_matrix (num_classes self) (confusion_matrix self)"
      and room: "room_for (length (flatten labels)) (confusion_matrix self)"
  shows "\<exists>ps m'. torch_argmax_dim1 y_preds = Inr ps
           \<and> (\<forall>p\<in>set (flatten ps). p < num_classes self)
           \<and> update self y_preds labels = Inr (self\<lparr>confusion_matrix := m'\<rparr>)
           \<and> length m' = num_classes self
           \<and> (\<forall>row\<in>set m'. length row = num_classes self)
           \<and> (\<forall>i<num_classes self. \<forall>j<num_classes self.
                 m' ! i ! j = confusion_matrix self ! i ! j
                   + int (length (filter (\<lambda>(t, p). t = int i \<and> p = j)
                                         (zip (flatten labels) (flatten ps)))))"
  using update_cell_counts[OF assms] by blast

text \<open>The statement at a batch of three pixels, one of them with the label 5.\<close>

theorem update_counts_valid_pixels_witness:
  "shapes_match ex_preds ex_labels
   \<and> list_all (\<lambda>s. length s = num_classes (IoU_init 2)) ex_preds
   \<and> wf_matrix (num_classes (IoU_init 2)) (confusion_matrix (IoU_init 2))
   \<and> room_for (length (flatten ex_labels)) (confusion_matrix (IoU_init 2))
   \<and> (\<exists>m'. update (IoU_init 2) ex_preds ex_labels = Inr ((IoU_init 2)\<lparr>confusion_matrix := m'\<rparr>)
          \<and> length m' = 2 \<and> m' ! 0 ! 1 = 1 \<and> m' ! 1 ! 0 = 1 \<and> m' ! 0 ! 0 = 0 \<and> m' ! 1 ! 1 = 0)"
proof -
  have h1: "shapes_match ex_preds ex_labels"
    by (simp add: shapes_match_def sample_shape_ok_def ex_preds_def ex_labels_def)
  have h2: "\<forall>s\<in>set ex_preds. length s = num_classes (IoU_init 2)"
    by (simp add: ex_preds_def IoU_init_def)
  have h3: "wf_matrix (num_classes (IoU_init 2)) (confusion_matrix (IoU_init 2))"
    by (rule wf_IoU_init)
  have z: "confusion_matrix (IoU_init 2) = [[0, 0], [0, 0]]"
    by (simp add: IoU_init_def np_zeros_def numeral_2_eq_2)
  have h4: "room_for (length (flatten ex_labels)) (confusion_matrix (IoU_init 2))"
    by (simp add: room_for_def z ex_labels_def flatten_def)
  have ps: "torch_argmax_dim1 ex_preds = Inr [[[1, 0, 0]]]"
    by (simp add: ex_preds_def argmax_sample_def upt_rec)
  have n: "num_classes (IoU_init 2) = 2" by (simp add: IoU_init_def)
  from update_counts_valid_pixels[OF h1 h2 h3 h4] obtain ps' m' where
    r: "torch_argmax_dim1 ex_preds = Inr ps'"
       "update (IoU_init 2) ex_preds ex_labels = Inr ((IoU_init 2)\<lparr>confusion_matrix := m'\<rparr>)"
       "length m' = num_classes (IoU_init 2)"
       "\<forall>i<num_classes (IoU_init 2). \<forall>j<num_classes (IoU_init 2).
           m' ! i ! j = confusion_matrix (IoU_init 2) ! i ! j
             + int (length (filter (\<lambda>(t, p). t = int i \<and> p = j)
                                   (zip (flatten ex_labels) (flatten ps'))))"
    by blast
  from r(1) ps have ps': "ps' = [[[1, 0, 0]]]" by simp
  have cells: "\<And>i j. i < 2 \<Longrightarrow> j < 2 \<Longrightarrow> m' ! i ! j = [[0, 0], [0, 0]] ! i ! j
             + int (length (filter (\<lambda>(t, p). t = int i \<and> p = j) [(0, 1), (1, 0), (5, 0::nat)]))"
    using r(4) by (simp add: n z ps' ex_labels_def flatten_def)
  have "m' ! 0 ! 1 = 1" "m' ! 1 ! 0 = 1" "m' ! 0 ! 0 = 0" "m' ! 1 ! 1 = 0"
    using cells[of 0 1] cells[of 1 0] cells[of 0 0] cells[of 1 1] by simp_all
  with h1 h2 h3 h4 r(2) r(3) n show ?thesis by (auto simp: list_all_iff)
qed

text \<open>
  C6, as the specification states it, fails on the float64 matrix: in a metric object
  that has counted \<open>2 ^ 53\<close> pixels, two updates with one pixel each leave the count as
  it was, and one update with the two pixels adds two.
\<close>

theorem update_batch_split_counterexample:
  "(case update big_metric one_pred one_label of Inl e \<Rightarrow> Inl e
    | Inr self' \<Rightarrow> update self' one_pred one_label)
     = Inr (big_metric\<lparr>confusion_matrix := [[9007199254740992]]\<rparr>)
   \<and> update big_metric (one_pred @ one_pred) (one_label @ one_label)
     = Inr (big_metric\<lparr>confusion_matrix := [[9007199254740994]]\<rparr>)"
  by code_simp

text \<open>
  C6, amended. As long as every count of the matrix, increased by the pixels of both
  batches, is at most \<open>2 ^ 53\<close>, accumulation does not depend on how the data is split
  into batches: updating with two batches one after the other gives the same result,
  matrix or exception, as one update with their concatenation, and within that range
  nothing is rounded.
\<close>

theorem update_batch_split:
  assumes a: "shapes_match preds_a labels_a" and b: "shapes_match preds_b labels_b"
      and wf: "wf_matrix (num_classes self) (confusion_matrix self)"
      and room: "room_for (length (flatten labels_a) + length (flatten labels_b))
                   (confusion_matrix self)"
  shows "(case update self preds_a labels_a of Inl e \<Rightarrow> Inl e
          | Inr self' \<Rightarrow> update self' preds_b labels_b)
         = update self (preds_a @ preds_b) (labels_a @ labels_b)"
proof -
  let ?n = "num_classes self" and ?m = "confusion_matrix self"
  let ?ka = "length (flatten labels_a)" and ?kb = "length (flatten labels_b)"
  from torch_argmax_ok[OF a] obtain pa where
    pa: "torch_argmax_dim1 preds_a = Inr pa" "length (flatten pa) = length (flatten labels_a)"
    by blast
  from torch_argmax_ok[OF b] obtain pb where
    pb: "torch_argmax_dim1 preds_b = Inr pb" "length (flatten pb) = length (flatten labels_b)"
    by blast
  let ?xa = "cell_indices ?n (flatten labels_a) (flatten pa)"
  let ?xb = "cell_indices ?n (flatten labels_b) (flatten pb)"
  have la: "length ?xa \<le> ?ka" and lb: "length ?xb \<le> ?kb"
    by (rule length_cell_indices)+
  have ab: "torch_argmax_dim1 (preds_a @ preds_b) = Inr (pa @ pb)"
    by (simp add: torch_argmax_append pa pb)
  have len: "length (flatten (pa @ pb)) = length (flatten (labels_a @ labels_b))"
    by (simp add: flatten_append pa pb)
  have idx: "cell_indices ?n (flatten (labels_a @ labels_b)) (flatten (pa @ pb)) = ?xa @ ?xb"
    by (simp add: flatten_append cell_indices_append pa(2))
  have ea: "mat_add ?m (hist_cells ?n ?xa) = mat_plus ?m (hist_cells ?n ?xa)"
    by (rule mat_add_hist_exact[OF wf room_for_mono[OF room] la]) simp
  have wf1: "wf_matrix ?n (mat_plus ?m (hist_cells ?n ?xa))"
    by (rule wf_matrix_plus_hist[OF wf])
  have room1: "room_for ?kb (mat_plus ?m (hist_cells ?n ?xa))"
    by (rule room_for_plus_hist[OF wf room la])
  have eb: "mat_add (mat_plus ?m (hist_cells ?n ?xa)) (hist_cells ?n ?xb)
            = mat_plus (mat_plus ?m (hist_cells ?n ?xa)) (hist_cells ?n ?xb)"
    by (rule mat_add_hist_exact[OF wf1 room1 lb])
  have eab: "mat_add ?m (hist_cells ?n (?xa @ ?xb)) = mat_plus ?m (hist_cells ?n (?xa @ ?xb))"
    by (rule mat_add_hist_exact[OF wf room]) (use la lb in simp)
  have ua: "update self preds_a labels_a
            = (if \<forall>x\<in>set ?xa. x < ?n * ?n
               then Inr (self\<lparr>confusion_matrix := mat_plus ?m (hist_cells ?n ?xa)\<rparr>)
               else Inl ValueError)"
    by (simp add: update_def pa(1) fast_hist_closed[OF pa(2)] ea)
  have ub: "update (self\<lparr>confusion_matrix := mat_plus ?m (hist_cells ?n ?xa)\<rparr>) preds_b labels_b
            = (if \<forall>x\<in>set ?xb. x < ?n * ?n
               then Inr (self\<lparr>confusion_matrix :=
                                mat_plus (mat_plus ?m (hist_cells ?n ?xa)) (hist_cells ?n ?xb)\<rparr>)
               else Inl ValueError)"
    by (simp add: update_def pb(1) fast_hist_closed[OF pb(2)] eb)
  have uab: "update self (preds_a @ preds_b) (labels_a @ labels_b)
            = (if \<forall>x\<in>set (?xa @ ?xb). x < ?n * ?n
               then Inr (self\<lparr>confusion_matrix := mat_plus ?m (hist_cells ?n (?xa @ ?xb))\<rparr>)
               else Inl ValueError)"
    by (simp add: update_def ab fast_hist_closed[OF len] idx eab)
  show ?thesis
  proof (cases "\<forall>x\<in>set ?xa. x < ?n * ?n")
    case False
    then show ?thesis unfolding ua uab by auto
  next
    case ta: True
    show ?thesis
    proof (cases "\<forall>x\<in>set ?xb. x < ?n * ?n")
      case False
      with ta show ?thesis unfolding ua uab by (auto simp: ub)
    next
      case True
      with ta have "\<forall>x\<in>set (?xa @ ?xb). x < ?n * ?n" by auto
      with ta True show ?thesis
        unfolding ua uab by (simp add: ub mat_plus_assoc hist_cells_append)
    qed
  qed
qed

text \<open>The statement at a batch of one sample and a batch of two samples.\<close>

theorem update_batch_split_witness:
  "shapes_match ex_preds ex_labels \<and> shapes_match ex_preds2 ex_labels2
   \<and> wf_matrix (num_classes (IoU_init 2)) (confusion_matrix (IoU_init 2))
   \<and> room_for (length (flatten ex_labels) + length (flatten ex_labels2))
        (confusion_matrix (IoU_init 2))
   \<and> update (IoU_init 2) (ex_preds @ ex_preds2) (ex_labels @ ex_labels2)
       = Inr ((IoU_init 2)\<lparr>confusion_matrix := [[1, 2], [3, 2]]\<rparr>)
   \<and> (case update (IoU_init 2) ex_preds ex_labels of Inl e \<Rightarrow> Inl e
       | Inr self' \<Rightarrow> update self' ex_preds2 ex_labels2)
       = Inr ((IoU_init 2)\<lparr>confusion_matrix := [[1, 2], [3, 2]]\<rparr>)"
proof -
  have h1: "shapes_match ex_preds ex_labels"
    by (simp add: shapes_match_def sample_shape_ok_def ex_preds_def ex_labels_def)
  have h2: "shapes_match ex_preds2 ex_labels2"
    by (simp add: shapes_match_def sample_shape_ok_def ex_preds2_def ex_labels2_def)
  have h3: "wf_matrix (num_classes (IoU_init 2)) (confusion_matrix (IoU_init 2))"
    by (rule wf_IoU_init)
  have z: "confusion_matrix (IoU_init 2) = [[0, 0], [0, 0]]"
    by (simp add: IoU_init_def np_zeros_def numeral_2_eq_2)
  have h4: "room_for (length (flatten ex_labels) + length (flatten ex_labels2))
              (confusion_matrix (IoU_init 2))"
    by (simp add: room_for_def z ex_labels_def ex_labels2_def flatten_def)
  have u: "update (IoU_init 2) (ex_preds @ ex_preds2) (ex_labels @ ex_labels2)
       = Inr ((IoU_init 2)\<lparr>confusion_matrix := [[1, 2], [3, 2]]\<rparr>)"
    by code_simp
  from update_batch_split[OF h1 h2 h3 h4] u h1 h2 h3 h4 show ?thesis by simp
qed

subsection \<open>\<open>compute\<close>\<close>

text \<open>
  C5. On a confusion matrix of counts, \<open>compute\<close> returns for every class \<open>c\<close> the
  IoU \<open>M[c,c] / (row_sum[c] + col_sum[c] - M[c,c])\<close> and the F1
  \<open>2 M[c,c] / (row_sum[c] + col_sum[c])\<close>; a class has a zero denominator exactly when
  its row and its column are all zero, its two values are then not-a-number, and the
  means are taken over the other classes only.
\<close>

theorem compute_iou_f1:
  assumes wf: "wf_matrix (num_classes self) (confusion_matrix self)"
  shows "\<exists>s. compute self None = Inr s
           \<and> classwise_iou s = map (iou_class (confusion_matrix self)) [0..<num_classes self]
           \<and> classwise_f1 s = map (f1_class (confusion_matrix self)) [0..<num_classes self]
           \<and> miou s = mean_defined (classwise_iou s)
           \<and> f1_mean s = mean_defined (classwise_f1 s)
           \<and> (\<forall>c<num_classes self.
                 ((\<forall>x\<in>set (confusion_matrix self ! c). x = 0)
                    \<and> (\<forall>row\<in>set (confusion_matrix self). row ! c = 0))
                 = (classwise_iou s ! c = NaN)
               \<and> (classwise_iou s ! c = NaN) = (classwise_f1 s ! c = NaN))"
proof -
  let ?m = "confusion_matrix self" and ?n = "num_classes self"
  have c: "compute self None = Inr (metrics ?m)" by (simp add: compute_def arg_bool_def)
  have iou: "classwise_iou (metrics ?m) = map (iou_class ?m) [0..<?n]"
    by (rule classwise_iou_eq[OF wf])
  have f1: "classwise_f1 (metrics ?m) = map (f1_class ?m) [0..<?n]"
    by (rule classwise_f1_eq[OF wf])
  have m1: "miou (metrics ?m) = mean_defined (classwise_iou (metrics ?m))"
    unfolding miou_eq iou
    by (rule nanmean_mean_defined) (simp add: list_all_iff iou_class_fin_or_nan)
  have m2: "f1_mean (metrics ?m) = mean_defined (classwise_f1 (metrics ?m))"
    unfolding f1_mean_eq f1
    by (rule nanmean_mean_defined) (simp add: list_all_iff f1_class_fin_or_nan)
  have nan: "\<forall>c<?n. ((\<forall>x\<in>set (?m ! c). x = 0) \<and> (\<forall>row\<in>set ?m. row ! c = 0))
                     = (classwise_iou (metrics ?m) ! c = NaN)
                  \<and> (classwise_iou (metrics ?m) ! c = NaN) = (classwise_f1 (metrics ?m) ! c = NaN)"
  proof (intro allI impI)
    fix c assume c: "c < ?n"
    show "((\<forall>x\<in>set (?m ! c). x = 0) \<and> (\<forall>row\<in>set ?m. row ! c = 0))
                     = (classwise_iou (metrics ?m) ! c = NaN)
                  \<and> (classwise_iou (metrics ?m) ! c = NaN) = (classwise_f1 (metrics ?m) ! c = NaN)"
      using absent_class[OF wf c] c
      by (simp add: iou f1 iou_class_def f1_class_def Let_def)
  qed
  from c iou f1 m1 m2 nan show ?thesis by blast
qed

text \<open>The statement at a matrix of three classes, the third one absent.\<close>

theorem compute_iou_f1_witness:
  "wf_matrix (num_classes ex_metric) (confusion_matrix ex_metric)
   \<and> (\<exists>s. compute ex_metric None = Inr s
         \<and> classwise_iou s = [Fin (2 / 3), Fin (3 / 4), NaN]
         \<and> classwise_f1 s = [Fin (4 / 5), Fin (6 / 7), NaN]
         \<and> miou s = Fin (17 / 24)
         \<and> f1_mean s = Fin (29 / 35))"
proof -
  have wf: "wf_matrix (num_classes ex_metric) (confusion_matrix ex_metric)"
    by (simp add: ex_metric_def wf_matrix_def)
  have up: "[0..<3] = [0, 1, 2]" by (simp add: upt_rec)
  have iou: "map (iou_class (confusion_matrix ex_metric)) [0..<num_classes ex_metric]
             = [Fin (2 / 3), Fin (3 / 4), NaN]"
    by (simp add: ex_metric_def up iou_class_def row_sum_def col_sum_def)
  have f1: "map (f1_class (confusion_matrix ex_metric)) [0..<num_classes ex_metric]
             = [Fin (4 / 5), Fin (6 / 7), NaN]"
    by (simp add: ex_metric_def up f1_class_def row_sum_def col_sum_def)
  have m1: "mean_defined [Fin (2 / 3), Fin (3 / 4), NaN] = Fin (17 / 24)"
    by (simp add: mean_defined_def defined_values_def)
  have m2: "mean_defined [Fin (4 / 5), Fin (6 / 7), NaN] = Fin (29 / 35)"
    by (simp add: mean_defined_def defined_values_def)
  from compute_iou_f1[OF wf] iou f1 m1 m2 wf show ?thesis by auto
qed

text \<open>
  C8. A matrix passed to \<open>compute\<close> is meant to replace the accumulated one, as the
  comment in the source says. The test \<open>if matrix:\<close> asks for the truth value of the
  array instead: a matrix of two classes raises, and a one-class matrix holding zero is
  ignored in favour of the accumulated matrix.
\<close>

theorem compute_matrix_argument_truthiness:
  "compute (IoU_init 2) (Some [[1, 0], [0, 1]]) = Inl ValueError
   \<and> compute \<lparr>iou_metric = 0, num_classes = 1, confusion_matrix = [[2]]\<rparr> (Some [[0]])
       = Inr \<lparr>accuracy = Fin 1, miou = Fin 1, classwise_iou = [Fin 1],
              classwise_f1 = [Fin 1], f1_mean = Fin 1, matrix = [[2]]\<rparr>"
  by code_simp

section \<open>Properties of evaluation and training\<close>

subsection \<open>\<open>evaluate_model\<close>\<close>

lemma eval_loop_eq:
  "eval_loop c mc m bs t mo =
     (case update_all c mc m bs mo of Inl e \<Rightarrow> Inl e
      | Inr mo' \<Rightarrow> Inr (t + sum_list (batch_losses c m bs), mo'))"
proof (induction bs arbitrary: t mo)
  case Nil
  then show ?case by (simp add: batch_losses_def)
next
  case (Cons b bs)
  obtain x l where b: "b = (x, l)" by (cases b)
  show ?case
  proof (cases "mc_update mc mo (forward c m x) l")
    case (Inl e)
    then show ?thesis by (simp add: b)
  next
    case (Inr mo')
    then show ?thesis
      using Cons.IH[of "t + criterion c (forward c m x) l" mo']
      by (simp add: b batch_losses_def add.assoc split: sum.splits)
  qed
qed

lemma evaluate_model_empty:
  "evaluate_model c m [] mc n = Inl ZeroDivisionError"
  by (simp add: evaluate_model_def)

lemma evaluate_model_update_error:
  "update_all c mc (set_eval c m) dataloader (mc_new mc n) = Inl e \<Longrightarrow>
   evaluate_model c m dataloader mc n = Inl e"
  by (simp add: evaluate_model_def eval_loop_eq)

text \<open>
  C9. \<open>evaluate_model\<close> goes through the batches once, in evaluation mode and without
  any optimizer step, and returns the sum of the batch losses divided by the number of
  batches (not of samples), with the snapshot of a fresh metric object updated once per
  batch. The data loader has at least one batch: with none, the division raises
  (\<open>evaluate_model_empty\<close>).
\<close>

theorem evaluate_model_mean_loss:
  assumes "dataloader \<noteq> []"
      and "update_all c mc (set_eval c m) dataloader (mc_new mc n) = Inr mo"
      and "mc_compute mc mo = Inr sn"
  shows "evaluate_model c m dataloader mc n
         = Inr (set_eval c m,
                sum_list (batch_losses c (set_eval c m) dataloader)
                  / real (length dataloader),
                sn)"
  using assms by (simp add: evaluate_model_def eval_loop_eq Let_def)

text \<open>The statement at two batches of two samples and of one sample.\<close>

theorem evaluate_model_mean_loss_witness:
  "id_batches \<noteq> []
   \<and> map (\<lambda>(x, l). length x) id_batches = [2, 1]
   \<and> (\<exists>mo sn. update_all id_collab IoU_class () id_batches (IoU_init 2) = Inr mo
         \<and> compute mo None = Inr sn
         \<and> evaluate_model id_collab () id_batches IoU_class 2 = Inr ((), 3 / 2, sn))"
proof -
  have h1: "id_batches \<noteq> []" by (simp add: id_batches_def)
  have sz: "map (\<lambda>(x, l). length x) id_batches = [2, 1]"
    by (simp add: id_batches_def ex_preds_def)
  have h2: "update_all id_collab IoU_class (set_eval id_collab ()) id_batches (mc_new IoU_class 2)
            = Inr ((IoU_init 2)\<lparr>confusion_matrix := [[0, 3], [3, 0]]\<rparr>)"
    by code_simp
  obtain sn where h3: "mc_compute IoU_class ((IoU_init 2)\<lparr>confusion_matrix := [[0, 3], [3, 0]]\<rparr>) = Inr sn"
    by (simp add: IoU_class_def compute_None)
  have l: "sum_list (batch_losses id_collab (set_eval id_collab ()) id_batches) / real (length id_batches) = 3 / 2"
    by (simp add: batch_losses_def id_collab_def id_batches_def ex_preds_def)
  from evaluate_model_mean_loss[OF h1 h2 h3] l h1 sz h2 h3 show ?thesis
    by (auto simp: IoU_class_def id_collab_def)
qed

subsection \<open>One epoch\<close>

lemma epoch_body_run:
  assumes "train_loop c dl_t (set_train c (model st), optimizer st, lr_scheduler st, 0, steps st)
           = (m1, o1, s1, tsum, n)"
      and "dl_t \<noteq> []"
      and "evaluate_model c m1 dl_v mc nc = Inr (m2, vl, vm)"
  shows "epoch_body c mc dl_t dl_v nc stop ep st =
     (let results' = results st @
             [\<lparr>epoch = ep, trainLoss = tsum / real (length dl_t), validationLoss = vl,
               metrices = vm, duration_train = elapsed c ep\<rparr>];
          ckpt = \<lparr>ck_model = m2, ck_optimizer = o1, ck_lr_scheduler = s1,
                  ck_min_val_loss = min_val_loss st, ck_results = results', ck_epoch = ep\<rparr>;
          st1 = st\<lparr>model := m2, optimizer := o1, lr_scheduler := s1,
                   results := results', steps := n,
                   files := (files st)\<lparr>last_pt := Some ckpt\<rparr>,
                   saved := saved st @ [(LastPt, ep)]\<rparr>
      in if fle (Fin vl) (min_val_loss st) then
           Inr (st1\<lparr>min_val_loss := Fin vl, best_epoch := ep,
                    files := (files st1)\<lparr>best_pt := Some (ckpt\<lparr>ck_min_val_loss := Fin vl\<rparr>)\<rparr>,
                    saved := saved st1 @ [(BestPt, ep)]\<rparr>, Continue)
         else if stop \<noteq> - 1 \<and> ep - best_epoch st > stop then Inr (st1, Break)
         else Inr (st1, Continue))"
  using assms by (simp add: epoch_body_def Let_def)

text \<open>
  C1. When the validation loss of the epoch is at most the minimum so far, a tie
  included, the epoch sets the minimum and the best epoch to its own and writes the
  ``best'' checkpoint with the state of this epoch, after the ``last'' one; the loop
  goes on.
\<close>

theorem epoch_body_improvement:
  assumes "train_loop c dl_t (set_train c (model st), optimizer st, lr_scheduler st, 0, steps st)
           = (m1, o1, s1, tsum, n)"
      and "dl_t \<noteq> []"
      and "evaluate_model c m1 dl_v mc nc = Inr (m2, vl, vm)"
      and "fle (Fin vl) (min_val_loss st)"
  shows "\<exists>st'. epoch_body c mc dl_t dl_v nc stop ep st = Inr (st', Continue)
           \<and> min_val_loss st' = Fin vl \<and> best_epoch st' = ep
           \<and> model st' = m2 \<and> optimizer st' = o1 \<and> lr_scheduler st' = s1
           \<and> results st' = results st @
                [\<lparr>epoch = ep, trainLoss = tsum / real (length dl_t), validationLoss = vl,
                  metrices = vm, duration_train = elapsed c ep\<rparr>]
           \<and> best_pt (files st')
               = Some \<lparr>ck_model = m2, ck_optimizer = o1, ck_lr_scheduler = s1,
                       ck_min_val_loss = Fin vl, ck_results = results st', ck_epoch = ep\<rparr>
           \<and> saved st' = saved st @ [(LastPt, ep), (BestPt, ep)]"
  using assms(4) by (simp add: epoch_body_run[OF assms(1-3)] Let_def)

text \<open>The statement at a tie: epoch 1 repeats the loss of epoch 0.\<close>

theorem epoch_body_improvement_witness:
  "fle (Fin (1 / 2)) (min_val_loss tie_state) \<and> best_epoch tie_state = 0
   \<and> (\<exists>st' vm. epoch_body (ex_collab (\<lambda>m. 1 / 2)) IoU_class ex_batches ex_batches 1 2 1 tie_state
                  = Inr (st', Continue)
         \<and> min_val_loss st' = Fin (1 / 2) \<and> best_epoch st' = 1
         \<and> map_option ck_model (best_pt (files st')) = Some 2
         \<and> map_option ck_epoch (best_pt (files st')) = Some 1
         \<and> saved st' = [(LastPt, 1), (BestPt, 1)])"
proof -
  let ?c = "ex_collab (\<lambda>m. 1 / 2)"
  have h1: "train_loop ?c ex_batches
              (set_train ?c (model tie_state), optimizer tie_state, lr_scheduler tie_state, 0,
               steps tie_state) = (2, (), None, 1 / 2, 2)"
    by (simp add: ex_collab_def ex_batches_def tie_state_def)
  have h2: "ex_batches \<noteq> []" by (simp add: ex_batches_def)
  have h3: "evaluate_model ?c 2 ex_batches IoU_class 1
            = Inr (2, 1 / 2, \<lparr>accuracy = Fin 1, miou = Fin 1, classwise_iou = [Fin 1],
                              classwise_f1 = [Fin 1], f1_mean = Fin 1, matrix = [[1]]\<rparr>)"
    by code_simp
  have h4: "fle (Fin (1 / 2)) (min_val_loss tie_state)" by (simp add: tie_state_def)
  from epoch_body_improvement[OF h1 h2 h3 h4, of 2 1] h4 show ?thesis
    by (auto simp: tie_state_def)
qed

lemma ex_run_patience_2:
  "(case ex_run 10 2 of
      Inr (Some r, st) \<Rightarrow>
        (map epoch r, saved st, best_epoch st, map_option ck_epoch (best_pt (files st)))
    | _ \<Rightarrow> ([], [], - 1, None))
   = ([0, 1, 2, 3, 4],
      [(LastPt, 0), (BestPt, 0), (LastPt, 1), (BestPt, 1), (LastPt, 2), (LastPt, 3),
       (LastPt, 4)],
      1, Some 1)"
  by code_simp

text \<open>
  C2, as the specification states it, fails twice. Early stopping is not tied to a
  non-negative patience: with the patience \<open>-2\<close> a run of five epochs stops after
  epoch 2. And in the specification's example the ``best'' checkpoint is written twice,
  at epoch 0 (any loss is at most the initial infinity) and at epoch 1.
\<close>

theorem early_stop_counterexample:
  "\<not> spec_early_stop_enabled (- 2)
   \<and> (case ex_run 5 (- 2) of Inr (Some r, st) \<Rightarrow> map epoch r | _ \<Rightarrow> []) = [0, 1, 2]
   \<and> (case ex_run 10 2 of Inr (Some r, st) \<Rightarrow> filter (\<lambda>w. fst w = BestPt) (saved st) | _ \<Rightarrow> [])
       = [(BestPt, 0), (BestPt, 1)]"
  by code_simp

text \<open>
  C2, amended. Early stopping is enabled exactly when the patience differs from \<open>-1\<close>.
  After an epoch without improvement the ``last'' checkpoint is written, the minimum,
  the best epoch and the ``best'' checkpoint stay as they are, and the loop stops at
  once, leaving the remaining epochs out, exactly when early stopping is enabled and
  the distance from the best epoch exceeds the patience. With patience 2 and the
  validation losses 0.5, 0.4, 0.45, 0.46, 0.47 a run of ten epochs ends after epoch 4
  with five ``last'' writes and two ``best'' writes, at epochs 0 and 1; the ``best''
  checkpoint left is that of epoch 1.
\<close>

theorem early_stop_after_patience:
  assumes "train_loop c dl_t (set_train c (model st), optimizer st, lr_scheduler st, 0, steps st)
           = (m1, o1, s1, tsum, n)"
      and "dl_t \<noteq> []"
      and "evaluate_model c m1 dl_v mc nc = Inr (m2, vl, vm)"
      and "\<not> fle (Fin vl) (min_val_loss st)"
  shows "(\<exists>st'. epoch_body c mc dl_t dl_v nc stop ep st
               = Inr (st', if stop \<noteq> - 1 \<and> stop < ep - best_epoch st then Break else Continue)
           \<and> best_epoch st' = best_epoch st \<and> min_val_loss st' = min_val_loss st
           \<and> best_pt (files st') = best_pt (files st)
           \<and> saved st' = saved st @ [(LastPt, ep)]
           \<and> epoch_loop c mc dl_t dl_v nc stop (ep # eps) st
               = (if stop \<noteq> - 1 \<and> stop < ep - best_epoch st then Inr st'
                  else epoch_loop c mc dl_t dl_v nc stop eps st'))
         \<and> (case ex_run 10 2 of
               Inr (Some r, st) \<Rightarrow>
                 (map epoch r, saved st, best_epoch st,
                  map_option ck_epoch (best_pt (files st)))
             | _ \<Rightarrow> ([], [], - 1, None))
            = ([0, 1, 2, 3, 4],
               [(LastPt, 0), (BestPt, 0), (LastPt, 1), (BestPt, 1), (LastPt, 2), (LastPt, 3),
                (LastPt, 4)],
               1, Some 1)"
  using assms(4) ex_run_patience_2
  by (simp add: epoch_body_run[OF assms(1-3)] Let_def)

text \<open>The statement at epoch 4 of the example, three epochs after the best one.\<close>

theorem early_stop_after_patience_witness:
  "\<not> fle (Fin (47 / 100)) (min_val_loss stall_state)
   \<and> (\<exists>st'. epoch_body (ex_collab ex_loss) IoU_class ex_batches ex_batches 1 2 4 stall_state
               = Inr (st', Break)
         \<and> epoch_loop (ex_collab ex_loss) IoU_class ex_batches ex_batches 1 2 [4, 5, 6] stall_state
               = Inr st'
         \<and> best_epoch st' = 1 \<and> saved st' = [(LastPt, 4)])"
proof -
  let ?c = "ex_collab ex_loss"
  have h1: "train_loop ?c ex_batches
              (set_train ?c (model stall_state), optimizer stall_state, lr_scheduler stall_state,
               0, steps stall_state) = (5, (), None, 23 / 50, 5)"
    by (simp add: ex_collab_def ex_batches_def stall_state_def ex_loss_def)
  have h2: "ex_batches \<noteq> []" by (simp add: ex_batches_def)
  have h3: "evaluate_model ?c 5 ex_batches IoU_class 1
            = Inr (5, 47 / 100, \<lparr>accuracy = Fin 1, miou = Fin 1, classwise_iou = [Fin 1],
                              classwise_f1 = [Fin 1], f1_mean = Fin 1, matrix = [[1]]\<rparr>)"
    by code_simp
  have h4: "\<not> fle (Fin (47 / 100)) (min_val_loss stall_state)" by (simp add: stall_state_def)
  from early_stop_after_patience[OF h1 h2 h3 h4, of 2 4 "[5, 6]"] h4 show ?thesis
    by (auto simp: stall_state_def)
qed

subsection \<open>Start and resume\<close>

lemma py_min_key_first:
  "\<exists>ys zs. b # xs = ys @ py_min_key f b xs # zs
     \<and> (\<forall>y\<in>set ys. f (py_min_key f b xs) < f y)
     \<and> (\<forall>z\<in>set zs. f (py_min_key f b xs) \<le> f z)"
proof (induction xs arbitrary: b)
  case Nil
  show ?case by (intro exI[of _ "[]"]) simp
next
  case (Cons x xs)
  define b' where "b' = (if f x < f b then x else b)"
  define r where "r = py_min_key f b' xs"
  have res: "py_min_key f b (x # xs) = r" by (simp add: r_def b'_def)
  have b'_le: "f b' \<le> f b" "f b' \<le> f x" by (auto simp: b'_def)
  from Cons.IH[of b'] obtain ys zs where
    split: "b' # xs = ys @ r # zs" and
    before: "\<forall>y\<in>set ys. f r < f y" and after: "\<forall>z\<in>set zs. f r \<le> f z"
    unfolding r_def by blast
  have "\<exists>ys zs. b # x # xs = ys @ r # zs \<and> (\<forall>y\<in>set ys. f r < f y) \<and> (\<forall>z\<in>set zs. f r \<le> f z)"
  proof (cases ys)
    case Nil
    with split have rb: "r = b'" and zs: "zs = xs" by simp_all
    show ?thesis
    proof (cases "f x < f b")
      case True
      then have rx: "r = x" using rb by (simp add: b'_def)
      have "b # x # xs = [b] @ r # xs \<and> (\<forall>y\<in>set [b]. f r < f y) \<and> (\<forall>z\<in>set xs. f r \<le> f z)"
        using True rx after zs by simp
      then show ?thesis by blast
    next
      case False
      then have rb': "r = b" using rb by (simp add: b'_def)
      have "b # x # xs = [] @ r # (x # xs) \<and> (\<forall>y\<in>set []. f r < f y)
            \<and> (\<forall>z\<in>set (x # xs). f r \<le> f z)"
        using False rb' after zs by auto
      then show ?thesis by blast
    qed
  next
    case (Cons y0 ys')
    with split have y0: "y0 = b'" and xs: "xs = ys' @ r # zs" by simp_all
    from before Cons y0 have lt: "f r < f b'" by simp
    with b'_le have "f r < f b" "f r < f x" by linarith+
    moreover have "\<forall>y\<in>set ys'. f r < f y" using before Cons by simp
    ultimately have "b # x # xs = (b # x # ys') @ r # zs \<and> (\<forall>y\<in>set (b # x # ys'). f r < f y)
            \<and> (\<forall>z\<in>set zs. f r \<le> f z)"
      using xs after by simp
    then show ?thesis by blast
  qed
  then show ?case unfolding res .
qed

lemma startup_fresh:
  assumes "(case disk of None \<Rightarrow> None | Some d \<Rightarrow> last_pt d) = None"
  shows "startup m0 o0 lr_sched disk
         = Inr (\<lparr>model = m0, optimizer = o0, lr_scheduler = lr_sched, results = [],
                 min_val_loss = PInf, best_epoch = - 1,
                 files = (case disk of None \<Rightarrow> \<lparr>last_pt = None, best_pt = None\<rparr> | Some d \<Rightarrow> d),
                 saved = [], steps = 0\<rparr>, 0)"
  using assms by (simp add: startup_def)

lemma startup_resume:
  assumes "disk = Some d" "last_pt d = Some ck" "ck_results ck = r # rs"
      and "lr_sched \<noteq> None \<longrightarrow> ck_lr_scheduler ck \<noteq> None"
  shows "startup m0 o0 lr_sched disk
         = Inr (\<lparr>model = ck_model ck, optimizer = ck_optimizer ck,
                 lr_scheduler = (case lr_sched of None \<Rightarrow> None | Some _ \<Rightarrow> ck_lr_scheduler ck),
                 results = ck_results ck,
                 min_val_loss = Fin (validationLoss (py_min_key validationLoss r rs)),
                 best_epoch = epoch (py_min_key validationLoss r rs),
                 files = d, saved = [], steps = 0\<rparr>,
                epoch (last (ck_results ck)) + 1)"
proof (cases lr_sched)
  case None
  with assms show ?thesis by (simp add: startup_def load_last_def)
next
  case (Some s)
  with assms(4) obtain s' where "ck_lr_scheduler ck = Some s'" by auto
  with Some assms(1-3) show ?thesis by (simp add: startup_def load_last_def)
qed

text \<open>
  A scheduler configured for the run is restored from the checkpoint's scheduler; a
  checkpoint saved by a run without a scheduler holds \<open>None\<close> there, and the load raises.
\<close>

lemma startup_scheduler_missing:
  assumes "disk = Some d" "last_pt d = Some ck" "lr_sched = Some s"
      and "ck_lr_scheduler ck = None"
  shows "startup m0 o0 lr_sched disk = Inl AttributeError"
  using assms by (simp add: startup_def load_last_def)

text \<open>
  C4, as the specification states it, fails for a ``last'' checkpoint that was saved by
  a run without a scheduler and is resumed with a scheduler configured: nothing is
  restored, the call ends in an \<open>AttributeError\<close>.
\<close>

theorem startup_scheduler_counterexample:
  "ex_disk = Some \<lparr>last_pt = Some ex_checkpoint, best_pt = None\<rparr>
   \<and> ck_lr_scheduler ex_checkpoint = None
   \<and> startup (0::nat) () (Some ()) ex_disk = Inl AttributeError
   \<and> train_validate_model (ex_collab ex_loss) 0 5 () ex_batches ex_batches no_metric 1
        (Some ()) ex_disk 2 = Inl AttributeError"
  by (simp add: train_validate_model_def startup_def load_last_def ex_disk_def
        ex_checkpoint_def)

text \<open>
  C4, amended. With a ``last'' checkpoint that holds at least one record and, if a
  scheduler is configured, a scheduler, the run starts from the checkpoint's model and
  optimizer, from its scheduler if a scheduler is configured, and from its records; the
  epoch counter is the last recorded epoch plus one; the minimum validation loss and the
  best epoch are those of the first record with the least validation loss, the recorded
  validation losses being numbers (a loss that is not-a-number is not a value of a
  record here, and Python's \<open>min\<close> would not skip it). Without a checkpoint the run
  starts at epoch 0 with the minimum at infinity, the best epoch \<open>-1\<close> and no records.
\<close>

theorem startup_resume_or_fresh:
  "(disk = Some d \<and> last_pt d = Some ck \<and> ck_results ck \<noteq> []
      \<and> (lr_sched \<noteq> None \<longrightarrow> ck_lr_scheduler ck \<noteq> None)
    \<longrightarrow> (\<exists>st ys b zs.
           startup m0 o0 lr_sched disk = Inr (st, epoch (last (ck_results ck)) + 1)
         \<and> model st = ck_model ck \<and> optimizer st = ck_optimizer ck
         \<and> lr_scheduler st = (case lr_sched of None \<Rightarrow> None | Some _ \<Rightarrow> ck_lr_scheduler ck)
         \<and> results st = ck_results ck
         \<and> ck_results ck = ys @ b # zs
         \<and> (\<forall>y\<in>set ys. validationLoss b < validationLoss y)
         \<and> (\<forall>z\<in>set zs. validationLoss b \<le> validationLoss z)
         \<and> min_val_loss st = Fin (validationLoss b) \<and> best_epoch st = epoch b))
   \<and> ((case disk of None \<Rightarrow> None | Some d \<Rightarrow> last_pt d) = None
    \<longrightarrow> (\<exists>st. startup m0 o0 lr_sched disk = Inr (st, 0)
         \<and> model st = m0 \<and> optimizer st = o0 \<and> lr_scheduler st = lr_sched
         \<and> results st = [] \<and> min_val_loss st = PInf \<and> best_epoch st = - 1))"
proof (intro conjI impI)
  assume a: "disk = Some d \<and> last_pt d = Some ck \<and> ck_results ck \<noteq> []
      \<and> (lr_sched \<noteq> None \<longrightarrow> ck_lr_scheduler ck \<noteq> None)"
  then obtain r rs where rs: "ck_results ck = r # rs" by (cases "ck_results ck") auto
  from py_min_key_first[of r rs validationLoss] obtain ys zs where
    f: "r # rs = ys @ py_min_key validationLoss r rs # zs"
       "\<forall>y\<in>set ys. validationLoss (py_min_key validationLoss r rs) < validationLoss y"
       "\<forall>z\<in>set zs. validationLoss (py_min_key validationLoss r rs) \<le> validationLoss z"
    by blast
  from a rs have s: "startup m0 o0 lr_sched disk
         = Inr (\<lparr>model = ck_model ck, optimizer = ck_optimizer ck,
                 lr_scheduler = (case lr_sched of None \<Rightarrow> None | Some _ \<Rightarrow> ck_lr_scheduler ck),
                 results = ck_results ck,
                 min_val_loss = Fin (validationLoss (py_min_key validationLoss r rs)),
                 best_epoch = epoch (py_min_key validationLoss r rs),
                 files = d, saved = [], steps = 0\<rparr>,
                epoch (last (ck_results ck)) + 1)"
    by (intro startup_resume) auto
  let ?st = "\<lparr>model = ck_model ck, optimizer = ck_optimizer ck,
                 lr_scheduler = (case lr_sched of None \<Rightarrow> None | Some _ \<Rightarrow> ck_lr_scheduler ck),
                 results = ck_results ck,
                 min_val_loss = Fin (validationLoss (py_min_key validationLoss r rs)),
                 best_epoch = epoch (py_min_key validationLoss r rs),
                 files = d, saved = [], steps = 0\<rparr>"
  let ?b = "py_min_key validationLoss r rs"
  have "startup m0 o0 lr_sched disk = Inr (?st, epoch (last (ck_results ck)) + 1)
         \<and> model ?st = ck_model ck \<and> optimizer ?st = ck_optimizer ck
         \<and> lr_scheduler ?st = (case lr_sched of None \<Rightarrow> None | Some _ \<Rightarrow> ck_lr_scheduler ck)
         \<and> results ?st = ck_results ck
         \<and> ck_results ck = ys @ ?b # zs
         \<and> (\<forall>y\<in>set ys. validationLoss ?b < validationLoss y)
         \<and> (\<forall>z\<in>set zs. validationLoss ?b \<le> validationLoss z)
         \<and> min_val_loss ?st = Fin (validationLoss ?b) \<and> best_epoch ?st = epoch ?b"
    using s f rs by simp
  then show "\<exists>st ys b zs.
           startup m0 o0 lr_sched disk = Inr (st, epoch (last (ck_results ck)) + 1)
         \<and> model st = ck_model ck \<and> optimizer st = ck_optimizer ck
         \<and> lr_scheduler st = (case lr_sched of None \<Rightarrow> None | Some _ \<Rightarrow> ck_lr_scheduler ck)
         \<and> results st = ck_results ck
         \<and> ck_results ck = ys @ b # zs
         \<and> (\<forall>y\<in>set ys. validationLoss b < validationLoss y)
         \<and> (\<forall>z\<in>set zs. validationLoss b \<le> validationLoss z)
         \<and> min_val_loss st = Fin (validationLoss b) \<and> best_epoch st = epoch b"
    by blast
next
  assume "(case disk of None \<Rightarrow> None | Some d \<Rightarrow> last_pt d) = None"
  then show "\<exists>st. startup m0 o0 lr_sched disk = Inr (st, 0)
         \<and> model st = m0 \<and> optimizer st = o0 \<and> lr_scheduler st = lr_sched
         \<and> results st = [] \<and> min_val_loss st = PInf \<and> best_epoch st = - 1"
    by (simp add: startup_fresh)
qed

text \<open>
  The statement at a checkpoint of three epochs whose last two tie, and at an empty disk.
\<close>

theorem startup_resume_or_fresh_witness:
  "(\<exists>st. startup 0 () None ex_disk = Inr (st, 3)
       \<and> model st = 3 \<and> results st = ex_records
       \<and> min_val_loss st = Fin (2 / 5) \<and> best_epoch st = 1)
   \<and> (\<exists>st. startup (0::nat) () (None :: unit option) (None :: (nat, unit, unit, unit) folder option)
              = Inr (st, 0)
       \<and> results st = [] \<and> min_val_loss st = PInf \<and> best_epoch st = - 1)"
proof -
  have h: "ex_disk = Some \<lparr>last_pt = Some ex_checkpoint, best_pt = None\<rparr>
           \<and> last_pt \<lparr>last_pt = Some ex_checkpoint, best_pt = None\<rparr> = Some ex_checkpoint
           \<and> ck_results ex_checkpoint \<noteq> []
           \<and> ((None :: unit option) \<noteq> None \<longrightarrow> ck_lr_scheduler ex_checkpoint \<noteq> None)"
    by (simp add: ex_disk_def ex_checkpoint_def ex_records_def)
  have e: "epoch (last (ck_results ex_checkpoint)) + 1 = 3"
    by (simp add: ex_checkpoint_def ex_records_def)
  have v: "startup (0::nat) () (None :: unit option) ex_disk
           = Inr (\<lparr>model = 3, optimizer = (), lr_scheduler = None, results = ex_records,
                   min_val_loss = Fin (2 / 5), best_epoch = 1,
                   files = \<lparr>last_pt = Some ex_checkpoint, best_pt = None\<rparr>,
                   saved = [], steps = 0\<rparr>, 3)"
    by (simp add: startup_def load_last_def ex_disk_def ex_checkpoint_def ex_records_def)
  note t = startup_resume_or_fresh[of ex_disk "\<lparr>last_pt = Some ex_checkpoint, best_pt = None\<rparr>"
      ex_checkpoint "None :: unit option" "0::nat" "()"]
  from t h obtain st where
    "startup (0::nat) () (None :: unit option) ex_disk
       = Inr (st, epoch (last (ck_results ex_checkpoint)) + 1)"
    "model st = ck_model ex_checkpoint" "results st = ck_results ex_checkpoint"
    by blast
  with v e have 1: "\<exists>st. startup 0 () None ex_disk = Inr (st, 3)
       \<and> model st = 3 \<and> results st = ex_records
       \<and> min_val_loss st = Fin (2 / 5) \<and> best_epoch st = 1"
    by (simp add: ex_checkpoint_def)
  have "(case (None :: (nat, unit, unit, unit) folder option) of None \<Rightarrow> None | Some d \<Rightarrow> last_pt d) = None"
    by simp
  with startup_resume_or_fresh[of "None :: (nat, unit, unit, unit) folder option" _ _
      "None :: unit option" "0::nat" "()"]
  have 2: "\<exists>st. startup (0::nat) () (None :: unit option) (None :: (nat, unit, unit, unit) folder option)
              = Inr (st, 0)
       \<and> results st = [] \<and> min_val_loss st = PInf \<and> best_epoch st = - 1"
    by blast
  from 1 2 show ?thesis by blast
qed

lemma train_validate_model_short_circuit:
  assumes "disk = Some d" "last_pt d = Some ck" "ck_results ck \<noteq> []"
      and "lr_sched \<noteq> None \<longrightarrow> ck_lr_scheduler ck \<noteq> None"
      and "num_epochs \<le> epoch (last (ck_results ck)) + 1"
  shows "\<exists>st. train_validate_model c m0 num_epochs o0 dl_t dl_v mc nc lr_sched disk stop
              = Inr (None, st)
           \<and> steps st = 0 \<and> saved st = [] \<and> files st = d
           \<and> results st = ck_results ck \<and> model st = ck_model ck"
proof -
  from assms(3) obtain r rs where rs: "ck_results ck = r # rs" by (cases "ck_results ck") auto
  show ?thesis
    using assms(5) rs
    by (simp add: train_validate_model_def startup_resume[OF assms(1,2) rs assms(4)])
qed

text \<open>
  C3. When the loaded checkpoint's last epoch plus one reaches the configured number of
  epochs, \<open>train_validate_model\<close> returns at once and without an exception: no optimizer
  step is taken, nothing is written, and the folder is as it was.
\<close>

theorem resume_short_circuit:
  assumes "disk = Some d" "last_pt d = Some ck" "ck_results ck \<noteq> []"
      and "lr_sched \<noteq> None \<longrightarrow> ck_lr_scheduler ck \<noteq> None"
      and "num_epochs \<le> epoch (last (ck_results ck)) + 1"
  shows "\<exists>st. train_validate_model c m0 num_epochs o0 dl_t dl_v mc nc lr_sched disk stop
              = Inr (None, st)
           \<and> steps st = 0 \<and> saved st = [] \<and> files st = d
           \<and> results st = ck_results ck"
  using train_validate_model_short_circuit[OF assms] by blast

text \<open>The statement at a checkpoint of three epochs and a run configured for three.\<close>

theorem resume_short_circuit_witness:
  "3 \<le> epoch (last (ck_results ex_checkpoint)) + 1
   \<and> (\<exists>st. train_validate_model (ex_collab ex_loss) 0 3 () ex_batches ex_batches no_metric 1
               None ex_disk 2 = Inr (None, st)
         \<and> steps st = 0 \<and> saved st = [] \<and> results st = ex_records)"
proof -
  have h1: "ex_disk = Some \<lparr>last_pt = Some ex_checkpoint, best_pt = None\<rparr>"
    by (simp add: ex_disk_def)
  have h2: "last_pt \<lparr>last_pt = Some ex_checkpoint, best_pt = None\<rparr> = Some ex_checkpoint"
    by simp
  have h3: "ck_results ex_checkpoint \<noteq> []" by (simp add: ex_checkpoint_def ex_records_def)
  have h4: "(None :: unit option) \<noteq> None \<longrightarrow> ck_lr_scheduler ex_checkpoint \<noteq> None" by simp
  have h5: "3 \<le> epoch (last (ck_results ex_checkpoint)) + 1"
    by (simp add: ex_checkpoint_def ex_records_def)
  from resume_short_circuit[OF h1 h2 h3 h4 h5, of "ex_collab ex_loss" 0 "()" ex_batches
      ex_batches no_metric 1 2] h5
  show ?thesis by (auto simp: ex_checkpoint_def)
qed

subsection \<open>The value returned\<close>

lemma epoch_body_appends:
  assumes "epoch_body c mc dl_t dl_v nc stop ep st = Inr (st', fl)"
  shows "\<exists>r. results st' = results st @ [r] \<and> epoch r = ep"
  using assms
  by (auto simp: epoch_body_def Let_def split: prod.splits if_splits sum.splits)

lemma epoch_loop_appends:
  assumes "epoch_loop c mc dl_t dl_v nc stop eps st = Inr st'"
  shows "\<exists>new. results st' = results st @ new \<and> (eps \<noteq> [] \<longrightarrow> new \<noteq> [])"
  using assms
proof (induction eps arbitrary: st)
  case Nil
  then show ?case by simp
next
  case (Cons ep eps)
  from Cons.prems obtain st1 fl where
    b: "epoch_body c mc dl_t dl_v nc stop ep st = Inr (st1, fl)"
    by (auto split: sum.splits)
  from epoch_body_appends[OF b] obtain r where r: "results st1 = results st @ [r]" by blast
  show ?case
  proof (cases fl)
    case Break
    with Cons.prems b have "st' = st1" by simp
    with r show ?thesis by auto
  next
    case Continue
    with Cons.prems b have "epoch_loop c mc dl_t dl_v nc stop eps st1 = Inr st'" by simp
    from Cons.IH[OF this] obtain new where "results st' = results st1 @ new" by blast
    with r show ?thesis by auto
  qed
qed

lemma startup_counter:
  assumes "startup m0 o0 lr_sched disk = Inr (st, e)" "results st = []"
  shows "e = 0"
  using assms
  by (auto simp: startup_def Let_def split: option.splits sum.splits prod.splits list.splits)

text \<open>
  When the loop is entered and left without an exception, the records are returned
  unless there are none, and there are none only on a fresh start with no epoch to run.
\<close>

lemma train_validate_model_loop_exit:
  assumes s: "startup m0 o0 lr_sched disk = Inr (st, e)"
      and enter: "\<not> (results st \<noteq> [] \<and> num_epochs \<le> e)"
      and loop: "epoch_loop c mc dl_t dl_v nc stop [e..num_epochs - 1] st = Inr st'"
  shows "train_validate_model c m0 num_epochs o0 dl_t dl_v mc nc lr_sched disk stop
         = (if results st' = [] then Inl KeyError else Inr (Some (results st'), st'))"
    and "results st' = [] \<longleftrightarrow> results st = [] \<and> num_epochs \<le> 0"
proof -
  show "train_validate_model c m0 num_epochs o0 dl_t dl_v mc nc lr_sched disk stop
         = (if results st' = [] then Inl KeyError else Inr (Some (results st'), st'))"
    using s enter loop by (auto simp: train_validate_model_def plot_training_results_def)
  from epoch_loop_appends[OF loop] obtain new where
    new: "results st' = results st @ new" "[e..num_epochs - 1] \<noteq> [] \<longrightarrow> new \<noteq> []" by blast
  show "results st' = [] \<longleftrightarrow> results st = [] \<and> num_epochs \<le> 0"
  proof (cases "results st = []")
    case True
    with startup_counter[OF s] have e: "e = 0" by simp
    show ?thesis
    proof (cases "num_epochs \<le> 0")
      case True
      with e loop have "st' = st" by simp
      with \<open>results st = []\<close> True show ?thesis by simp
    next
      case False
      then have "[e..num_epochs - 1] \<noteq> []" using e by simp
      with new False show ?thesis by simp
    qed
  next
    case False
    with new show ?thesis by simp
  qed
qed

text \<open>
  C10. The short-circuit on resume returns \<open>None\<close> and not the restored records
  (\<open>train_validate_model_short_circuit\<close>), and a loop that has recorded an epoch
  returns all records. A fresh run configured for no epoch leaves the loop by exhaustion
  too, but then the frame has no column \<open>epoch\<close> and plotting raises \<open>KeyError\<close>
  before the \<open>return\<close> is reached.
\<close>

theorem train_validate_model_zero_epochs:
  "ex_run 0 (- 1) = Inl KeyError
   \<and> (case ex_run 2 (- 1) of Inr (Some r, st) \<Rightarrow> map epoch r | _ \<Rightarrow> []) = [0, 1]
   \<and> (case train_validate_model (ex_collab ex_loss) 0 3 () ex_batches ex_batches no_metric 1
              None ex_disk (- 1) of
         Inr (None, st) \<Rightarrow> map epoch (results st) | _ \<Rightarrow> []) = [0, 1, 2]"
  by code_simp

end
